theory Spec2Isabelle
  imports Main
begin

section \<open>Numbers\<close>

text \<open>
  The numbers of the program are IEEE 754 doubles.  Those that the functions below meet
  are the doubles with an integer value, the two infinities and \<open>NaN\<close>: \<open>Fin i\<close> stands
  for the double of value \<open>i\<close>.  Every integer up to \<open>2 ^ 53\<close> in absolute value is a
  double; above, a double is a multiple of a power of two with a quotient of 53 bits,
  and what reaches \<open>2 ^ 1024\<close> after rounding is infinite.
\<close>

datatype number = Fin int | PosInf | NegInf | NaN

text \<open>The number of bits of a natural number.\<close>

fun bit_length :: "nat \<Rightarrow> nat" where
  "bit_length n = (if n = 0 then 0 else Suc (bit_length (n div 2)))"

declare bit_length.simps [simp del]

text \<open>
  Rounding to the nearest double, ties to the even quotient: \<open>e\<close> is the number of
  bits that a quotient of 53 bits cannot hold, \<open>q\<close> the quotient, \<open>r\<close> what is cut off.
\<close>

definition round_nat :: "nat \<Rightarrow> nat" where
  "round_nat n =
     (if n \<le> 2 ^ 53 then n
      else
        (let e = bit_length n - 53; q = n div 2 ^ e; r = n mod 2 ^ e; half = 2 ^ (e - 1)
         in (if half < r \<or> (r = half \<and> odd q) then q + 1 else q) * 2 ^ e))"

definition to_double_nat :: "nat \<Rightarrow> number" where
  "to_double_nat n = (let m = round_nat n in if 2 ^ 1024 \<le> m then PosInf else Fin (int m))"

fun number_neg :: "number \<Rightarrow> number" where
  "number_neg (Fin i) = Fin (- i)"
| "number_neg PosInf = NegInf"
| "number_neg NegInf = PosInf"
| "number_neg NaN = NaN"

definition to_double :: "int \<Rightarrow> number" where
  "to_double i =
     (if 0 \<le> i then to_double_nat (nat i) else number_neg (to_double_nat (nat (- i))))"

text \<open>\<open>x + y\<close> and \<open>x - y\<close>: the exact result, rounded.\<close>

fun number_plus :: "number \<Rightarrow> number \<Rightarrow> number" where
  "number_plus (Fin a) (Fin b) = to_double (a + b)"
| "number_plus NaN y = NaN"
| "number_plus x NaN = NaN"
| "number_plus PosInf NegInf = NaN"
| "number_plus NegInf PosInf = NaN"
| "number_plus PosInf y = PosInf"
| "number_plus x PosInf = PosInf"
| "number_plus NegInf y = NegInf"
| "number_plus x NegInf = NegInf"

definition number_minus :: "number \<Rightarrow> number \<Rightarrow> number" where
  "number_minus x y = number_plus x (number_neg y)"

text \<open>\<open>Math.sign\<close>, \<open>x > y\<close>, \<open>x === y\<close> and \<open>isNaN\<close>.\<close>

fun Math_sign :: "number \<Rightarrow> number" where
  "Math_sign (Fin i) = Fin (sgn i)"
| "Math_sign PosInf = Fin 1"
| "Math_sign NegInf = Fin (- 1)"
| "Math_sign NaN = NaN"

fun number_gt :: "number \<Rightarrow> number \<Rightarrow> bool" where
  "number_gt (Fin a) (Fin b) = (b < a)"
| "number_gt NaN y = False"
| "number_gt x NaN = False"
| "number_gt PosInf PosInf = False"
| "number_gt PosInf y = True"
| "number_gt x PosInf = False"
| "number_gt NegInf y = False"
| "number_gt x NegInf = True"

definition strict_equal :: "number \<Rightarrow> number \<Rightarrow> bool" where
  "strict_equal x y = (x \<noteq> NaN \<and> x = y)"

definition isNaN :: "number \<Rightarrow> bool" where
  "isNaN x = (x = NaN)"

subsection \<open>Numbers from and to strings\<close>

text \<open>
  \<open>dec_value\<close> is the value of a string of decimal digits.  \<open>Number(s)\<close> and
  \<open>parseInt(s, 10)\<close> on such a string are that value rounded to the nearest double.
\<close>

definition digit_val :: "char \<Rightarrow> nat" where
  "digit_val c = of_char c - 48"

definition dec_value :: "string \<Rightarrow> nat" where
  "dec_value s = foldl (\<lambda>acc c. 10 * acc + digit_val c) 0 s"

definition Number :: "string \<Rightarrow> number" where
  "Number s = to_double_nat (dec_value s)"

definition digit_char :: "nat \<Rightarrow> char" where
  "digit_char d = ''0123456789'' ! d"

text \<open>The decimal digits of a natural number.\<close>

fun show_nat :: "nat \<Rightarrow> string" where
  "show_nat n = (if n < 10 then [digit_char n] else show_nat (n div 10) @ [digit_char (n mod 10)])"

declare show_nat.simps [simp del]

text \<open>
  A number in a template literal is rendered by \<open>Number::toString\<close>: with \<open>k\<close> as small
  as possible, \<open>s\<close> of \<open>k\<close> digits and \<open>n\<close> such that \<open>s * 10 ^ (n - k)\<close> is the number, or
  rounds to it, and among several \<open>s\<close> the one that comes closest; then the digits of \<open>s\<close>
  followed by \<open>n - k\<close> zeros when \<open>n \<le> 21\<close>, and the exponent notation above.  For an
  integer \<open>v\<close> of \<open>d\<close> digits, \<open>n\<close> is one of \<open>d - 1\<close>, \<open>d\<close> and \<open>d + 1\<close>, and the closest
  \<open>s\<close> is the quotient of \<open>v\<close> by \<open>10 ^ (n - k)\<close> or its successor.  Below \<open>2 ^ 53\<close> every
  integer is a double of its own, so that the digits are those of \<open>v\<close>.
\<close>

definition candidates :: "nat \<Rightarrow> nat \<Rightarrow> (nat \<times> nat) list" where
  "candidates v k =
     (let d = length (show_nat v)
      in [(n, s). n \<leftarrow> [d - 1, d, d + 1], k \<le> n,
                  s \<leftarrow> [v div 10 ^ (n - k), v div 10 ^ (n - k) + 1],
                  10 ^ (k - 1) \<le> s, s < 10 ^ k,
                  to_double_nat (s * 10 ^ (n - k)) = Fin (int v)])"

definition distance :: "nat \<Rightarrow> nat \<Rightarrow> nat \<times> nat \<Rightarrow> nat" where
  "distance v k c = (case c of (n, s) \<Rightarrow> nat \<bar>int (s * 10 ^ (n - k)) - int v\<bar>)"

fun closest :: "nat \<Rightarrow> nat \<Rightarrow> (nat \<times> nat) \<Rightarrow> (nat \<times> nat) list \<Rightarrow> nat \<times> nat" where
  "closest v k best [] = best"
| "closest v k best (c # cs) =
     (if distance v k c < distance v k best
         \<or> (distance v k c = distance v k best \<and> even (snd c) \<and> odd (snd best))
      then closest v k c cs else closest v k best cs)"

function first_digits :: "nat \<Rightarrow> nat \<Rightarrow> nat \<Rightarrow> nat option" where
  "first_digits v d k =
     (if d < k then None
      else if candidates v k \<noteq> [] then Some k
      else first_digits v d (Suc k))"
  by pat_completeness auto
termination
  by (relation "measure (\<lambda>(v, d, k). Suc d - k)") auto

declare first_digits.simps [simp del]

definition shortest :: "nat \<Rightarrow> nat \<times> nat \<times> nat" where
  "shortest v =
     (let d = length (show_nat v)
      in case first_digits v d 1 of
           None \<Rightarrow> (d, d, v)
         | Some k \<Rightarrow>
             (case candidates v k of
                [] \<Rightarrow> (d, d, v)
              | c # cs \<Rightarrow> (case closest v k c cs of (n, s) \<Rightarrow> (n, k, s))))"

definition show_big :: "nat \<Rightarrow> string" where
  "show_big v =
     (case shortest v of (n, k, s) \<Rightarrow>
        if n \<le> 21 then show_nat s @ replicate (n - k) (CHR ''0'')
        else if k = 1 then show_nat s @ ''e+'' @ show_nat (n - 1)
        else hd (show_nat s) # ''.'' @ tl (show_nat s) @ ''e+'' @ show_nat (n - 1))"

definition show_pos :: "nat \<Rightarrow> string" where
  "show_pos v = (if v < 2 ^ 53 then show_nat v else show_big v)"

fun show_number :: "number \<Rightarrow> string" where
  "show_number (Fin i) = (if i < 0 then ''-'' @ show_pos (nat (- i)) else show_pos (nat i))"
| "show_number PosInf = ''Infinity''"
| "show_number NegInf = ''-Infinity''"
| "show_number NaN = ''NaN''"


section \<open>Semantic versions (src/semver.ts)\<close>

text \<open>
  Strings are lists of characters, one \<^typ>\<open>char\<close> per code unit, so the development
  covers code units below 256.  The numeric fields of a version are numbers.  An
  optional string (\<open>string | undefined\<close>) is a \<^typ>\<open>string option\<close>.
\<close>

datatype Impact = NOIMPACT | PATCH | MINOR | MAJOR

text \<open>The numeric value of an enum member: \<open>NOIMPACT = 0\<close>, ..., \<open>MAJOR = 3\<close>.\<close>

fun impact_num :: "Impact \<Rightarrow> nat" where
  "impact_num NOIMPACT = 0"
| "impact_num PATCH = 1"
| "impact_num MINOR = 2"
| "impact_num MAJOR = 3"

record SemanticVersion =
  major :: number
  minor :: number
  patch :: number
  prerelease :: "string option"
  buildmetadata :: "string option"

text \<open>The only exception of the module: \<open>new Error(message)\<close>.\<close>

datatype error = Error string

subsection \<open>Character classes and helpers\<close>

definition is_digit :: "char \<Rightarrow> bool" where
  "is_digit c = (c \<in> set ''0123456789'')"

definition is_nonzero_digit :: "char \<Rightarrow> bool" where
  "is_nonzero_digit c = (c \<in> set ''123456789'')"

definition is_letter :: "char \<Rightarrow> bool" where
  "is_letter c =
     (c \<in> set ''abcdefghijklmnopqrstuvwxyz'' \<or> c \<in> set ''ABCDEFGHIJKLMNOPQRSTUVWXYZ'')"

text \<open>\<open>[a-zA-Z-]\<close> and \<open>[0-9a-zA-Z-]\<close>.\<close>

definition is_letter_or_hyphen :: "char \<Rightarrow> bool" where
  "is_letter_or_hyphen c = (is_letter c \<or> c = CHR ''-'')"

definition is_ident_char :: "char \<Rightarrow> bool" where
  "is_ident_char c = (is_digit c \<or> is_letter_or_hyphen c)"

text \<open>Truthiness of an optional string: \<open>undefined\<close> and the empty string are falsy.\<close>

fun truthy :: "string option \<Rightarrow> bool" where
  "truthy None = False"
| "truthy (Some s) = (s \<noteq> [])"

fun str_of :: "string option \<Rightarrow> string" where
  "str_of None = []"
| "str_of (Some s) = s"

text \<open>
  \<open>s.split(sep)\<close> for a separator that is one character out of a class: the result is
  never empty, and the empty string splits into one empty part.
\<close>

fun split_on :: "(char \<Rightarrow> bool) \<Rightarrow> string \<Rightarrow> string list" where
  "split_on p [] = [[]]"
| "split_on p (c # cs) =
     (if p c then [] # split_on p cs
      else (case split_on p cs of [] \<Rightarrow> [[c]] | w # ws \<Rightarrow> (c # w) # ws))"

definition is_dot :: "char \<Rightarrow> bool" where
  "is_dot c = (c = CHR ''.'')"

subsection \<open>The regular expressions of the module\<close>

text \<open>\<open>0|[1-9]\d*\<close>, matched against a whole identifier.\<close>

definition re_numeric :: "string \<Rightarrow> bool" where
  "re_numeric s =
     (s = ''0'' \<or> (case s of [] \<Rightarrow> False | c # cs \<Rightarrow> is_nonzero_digit c \<and> list_all is_digit cs))"

text \<open>
  \<open>\d*[a-zA-Z-][0-9a-zA-Z-]*\<close>, matched against a whole identifier: the digits of the
  prefix, then a letter or hyphen, then identifier characters.
\<close>

definition re_alnum_ident :: "string \<Rightarrow> bool" where
  "re_alnum_ident s =
     (case dropWhile is_digit s of [] \<Rightarrow> False
      | c # cs \<Rightarrow> is_letter_or_hyphen c \<and> list_all is_ident_char cs)"

text \<open>
  \<open>prerelease_re\<close>: \<open>^(?:ID)(?:\.(?:ID))*$\<close> with
  \<open>ID = 0|[1-9]\d*|\d*[a-zA-Z-][0-9a-zA-Z-]*\<close>.  No identifier contains a dot, so the
  string matches when each of its dot-separated parts is an identifier.
\<close>

definition prerelease_re :: "string \<Rightarrow> bool" where
  "prerelease_re s = list_all (\<lambda>p. re_numeric p \<or> re_alnum_ident p) (split_on is_dot s)"

text \<open>\<open>buildmetadata_re\<close>: \<open>^[0-9a-zA-Z-]+(?:\.[0-9a-zA-Z-]+)*$\<close>.\<close>

definition buildmetadata_re :: "string \<Rightarrow> bool" where
  "buildmetadata_re s = list_all (\<lambda>p. p \<noteq> [] \<and> list_all is_ident_char p) (split_on is_dot s)"

text \<open>\<open>/^[0-9]+$/\<close>.\<close>

definition all_digits :: "string \<Rightarrow> bool" where
  "all_digits s = (s \<noteq> [] \<and> list_all is_digit s)"

subsection \<open>Construction, rendering, bumping\<close>

text \<open>
  The constructor stores its arguments and then validates the two optional strings;
  a falsy string (absent or empty) skips its check.
\<close>

definition new_SemanticVersion ::
  "number \<Rightarrow> number \<Rightarrow> number \<Rightarrow> string option \<Rightarrow> string option
    \<Rightarrow> error + SemanticVersion" where
  "new_SemanticVersion ma mi pa pre bm =
     (if truthy pre \<and> \<not> prerelease_re (str_of pre)
      then Inl (Error (''Invalid prerelease format: '' @ str_of pre))
      else if truthy bm \<and> \<not> buildmetadata_re (str_of bm)
      then Inl (Error (''Invalid build metadata format: '' @ str_of bm))
      else Inr \<lparr>major = ma, minor = mi, patch = pa, prerelease = pre, buildmetadata = bm\<rparr>)"

definition toString :: "SemanticVersion \<Rightarrow> string" where
  "toString v =
     show_number (major v) @ ''.'' @ show_number (minor v) @ ''.'' @ show_number (patch v)
       @ (if truthy (prerelease v) then ''-'' @ str_of (prerelease v) else [])
       @ (if truthy (buildmetadata v) then ''+'' @ str_of (buildmetadata v) else [])"

fun bump :: "SemanticVersion \<Rightarrow> Impact \<Rightarrow> string option \<Rightarrow> string option
    \<Rightarrow> error + SemanticVersion" where
  "bump v MAJOR pre bm = new_SemanticVersion (number_plus (major v) (Fin 1)) (Fin 0) (Fin 0) pre bm"
| "bump v MINOR pre bm = new_SemanticVersion (major v) (number_plus (minor v) (Fin 1)) (Fin 0) pre bm"
| "bump v PATCH pre bm = new_SemanticVersion (major v) (minor v) (number_plus (patch v) (Fin 1)) pre bm"
| "bump v NOIMPACT pre bm = new_SemanticVersion (major v) (minor v) (patch v) pre bm"

subsection \<open>Comparison\<close>

text \<open>
  \<open>localeCompare\<close> is the collation of the host; it is a parameter \<open>lc\<close> of the comparison,
  negative, zero or positive.  The loop over the indices below \<open>maxLen\<close> is a recursion
  over the two lists of parts: a missing part on the left returns \<open>-1\<close>, on the right \<open>1\<close>.
  A difference is a number: \<open>diff !== 0\<close> holds of \<open>NaN\<close>, and the sign of \<open>NaN\<close> is \<open>NaN\<close>.
\<close>

fun compare_parts :: "(string \<Rightarrow> string \<Rightarrow> int) \<Rightarrow> string list \<Rightarrow> string list \<Rightarrow> number" where
  "compare_parts lc [] [] = Fin 0"
| "compare_parts lc [] (bp # bs) = Fin (- 1)"
| "compare_parts lc (ap # as) [] = Fin 1"
| "compare_parts lc (ap # as) (bp # bs) =
     (if all_digits ap \<and> all_digits bp then
        (let diff = number_minus (Number ap) (Number bp)
         in if \<not> strict_equal diff (Fin 0) then Math_sign diff else compare_parts lc as bs)
      else if all_digits ap \<noteq> all_digits bp then (if all_digits ap then Fin (- 1) else Fin 1)
      else
        (let diff = lc ap bp
         in if diff \<noteq> 0 then Fin (sgn diff) else compare_parts lc as bs))"

definition comparePrerelease ::
  "(string \<Rightarrow> string \<Rightarrow> int) \<Rightarrow> string option \<Rightarrow> string option \<Rightarrow> number" where
  "comparePrerelease lc a b =
     (if \<not> truthy a \<and> \<not> truthy b then Fin 0
      else if \<not> truthy a then Fin 1
      else if \<not> truthy b then Fin (- 1)
      else compare_parts lc (split_on is_dot (str_of a)) (split_on is_dot (str_of b)))"

definition compare ::
  "(string \<Rightarrow> string \<Rightarrow> int) \<Rightarrow> SemanticVersion \<Rightarrow> SemanticVersion \<Rightarrow> number" where
  "compare lc a b =
     (let majorDiff = number_minus (major a) (major b) in
      if \<not> strict_equal majorDiff (Fin 0) then Math_sign majorDiff else
      let minorDiff = number_minus (minor a) (minor b) in
      if \<not> strict_equal minorDiff (Fin 0) then Math_sign minorDiff else
      let patchDiff = number_minus (patch a) (patch b) in
      if \<not> strict_equal patchDiff (Fin 0) then Math_sign patchDiff else
      comparePrerelease lc (prerelease a) (prerelease b))"

subsection \<open>Parsing\<close>

text \<open>
  The pattern of \<open>parse\<close> is
  \<open>^v?(MAJOR)\.(MINOR)\.(PATCH)(?:-(PRERELEASE))?(?:\+(BUILDMETADATA))?$\<close>, where the three
  numbers are \<open>0|[1-9]\d*\<close> and the two optional groups are the bodies of \<open>prerelease_re\<close>
  and \<open>buildmetadata_re\<close>.  Neither the numbers nor a prerelease contain \<open>+\<close>, and the
  numbers contain no \<open>-\<close>: the build metadata is what follows the first \<open>+\<close>, the
  prerelease what follows the first \<open>-\<close> before it, and what is left is the three numbers
  between dots.  \<open>split_first\<close> cuts a string at the first occurrence of a character.
\<close>

definition split_first :: "char \<Rightarrow> string \<Rightarrow> string \<times> string option" where
  "split_first c s =
     (takeWhile (\<lambda>x. x \<noteq> c) s,
      case dropWhile (\<lambda>x. x \<noteq> c) s of [] \<Rightarrow> None | _ # r \<Rightarrow> Some r)"

fun strip_v :: "string \<Rightarrow> string" where
  "strip_v [] = []"
| "strip_v (c # cs) = (if c = CHR ''v'' then cs else c # cs)"

text \<open>The groups of a match: major, minor, patch, prerelease, buildmetadata.\<close>

definition semver_re ::
  "string \<Rightarrow> (string \<times> string \<times> string \<times> string option \<times> string option) option" where
  "semver_re version =
     (case split_first CHR ''+'' (strip_v version) of (s1, build) \<Rightarrow>
      case split_first CHR ''-'' s1 of (core, pre) \<Rightarrow>
      case split_on is_dot core of
        [ma, mi, pa] \<Rightarrow>
          if re_numeric ma \<and> re_numeric mi \<and> re_numeric pa
            \<and> (case pre of None \<Rightarrow> True | Some p \<Rightarrow> prerelease_re p)
            \<and> (case build of None \<Rightarrow> True | Some b \<Rightarrow> buildmetadata_re b)
          then Some (ma, mi, pa, pre, build) else None
      | _ \<Rightarrow> None)"

text \<open>
  \<open>parse\<close> builds the version from the three numbers and then assigns the two optional
  fields when their groups are truthy.
\<close>

definition parse :: "string \<Rightarrow> SemanticVersion option" where
  "parse version =
     (case semver_re version of
        None \<Rightarrow> None
      | Some (ma, mi, pa, pre, build) \<Rightarrow>
          Some \<lparr>major = Number ma, minor = Number mi, patch = Number pa,
                prerelease = (if truthy pre then pre else None),
                buildmetadata = (if truthy build then build else None)\<rparr>)"

subsection \<open>The next release-candidate index\<close>

text \<open>\<open>/^rc([0-9]+)$/i\<close> with its group, and \<open>/^rc$/i\<close>.\<close>

definition is_r :: "char \<Rightarrow> bool" where
  "is_r c = (c = CHR ''r'' \<or> c = CHR ''R'')"

definition is_c :: "char \<Rightarrow> bool" where
  "is_c c = (c = CHR ''c'' \<or> c = CHR ''C'')"

fun rc_inline :: "string \<Rightarrow> string option" where
  "rc_inline (r # c # ds) = (if is_r r \<and> is_c c \<and> all_digits ds then Some ds else None)"
| "rc_inline _ = None"

fun rc_bare :: "string \<Rightarrow> bool" where
  "rc_bare [r, c] = (is_r r \<and> is_c c)"
| "rc_bare _ = False"

definition is_rc_separator :: "char \<Rightarrow> bool" where
  "is_rc_separator c = (c = CHR ''.'' \<or> c = CHR ''-'' \<or> c = CHR ''_'')"

text \<open>
  The inner loop over the parts of one prerelease, with the running maximum \<open>maxRc\<close>;
  \<open>parts[i + 1]\<close> is the head of the remaining parts, \<open>undefined\<close> when there is none.
\<close>

fun rc_scan :: "string list \<Rightarrow> number \<Rightarrow> number" where
  "rc_scan [] maxRc = maxRc"
| "rc_scan (part # rest) maxRc =
     (case rc_inline part of
        Some ds \<Rightarrow>
          (let n = Number ds
           in rc_scan rest (if \<not> isNaN n \<and> number_gt n maxRc then n else maxRc))
      | None \<Rightarrow>
          if rc_bare part then
            (case rest of
               [] \<Rightarrow> rc_scan rest (if number_gt (Fin 0) maxRc then Fin 0 else maxRc)
             | next # _ \<Rightarrow>
                 if all_digits next
                 then (let n = Number next
                       in rc_scan rest (if \<not> isNaN n \<and> number_gt n maxRc then n else maxRc))
                 else rc_scan rest maxRc)
          else rc_scan rest maxRc)"

text \<open>The body of the outer loop for one tag name.\<close>

definition rc_tag :: "SemanticVersion \<Rightarrow> string \<Rightarrow> number \<Rightarrow> number" where
  "rc_tag base name maxRc =
     (case parse name of
        None \<Rightarrow> maxRc
      | Some parsed \<Rightarrow>
          if strict_equal (major parsed) (major base) \<and> strict_equal (minor parsed) (minor base)
             \<and> strict_equal (patch parsed) (patch base) \<and> truthy (prerelease parsed)
          then rc_scan (split_on is_rc_separator (str_of (prerelease parsed))) maxRc
          else maxRc)"

definition nextRcIndex :: "SemanticVersion \<Rightarrow> string list \<Rightarrow> number" where
  "nextRcIndex base tagNames = number_plus (fold (rc_tag base) tagNames (Fin (- 1))) (Fin 1)"

subsection \<open>The index as the specification words it\<close>













section \<open>Conventional commits (src/conventional_commits.ts)\<close>

subsection \<open>The mapping object\<close>

text \<open>The own properties of \<open>TypeToImpactMapping\<close>, in the order of the literal.\<close>

definition TypeToImpactMapping :: "(string \<times> Impact) list" where
  "TypeToImpactMapping =
     [(''docs'', NOIMPACT), (''style'', NOIMPACT), (''test'', NOIMPACT), (''chore'', NOIMPACT),
      (''build'', NOIMPACT), (''ci'', NOIMPACT), (''refactor'', PATCH), (''fix'', PATCH),
      (''perf'', PATCH), (''feat'', MINOR)]"

text \<open>
  The mapping is an object literal, so its prototype is \<open>Object.prototype\<close>.  The \<open>in\<close>
  operator and a property read both follow the prototype chain, and these are the
  property names of \<open>Object.prototype\<close>.
\<close>

definition object_prototype_keys :: "string list" where
  "object_prototype_keys =
     [''constructor'', ''__defineGetter__'', ''__defineSetter__'', ''hasOwnProperty'',
      ''__lookupGetter__'', ''__lookupSetter__'', ''isPrototypeOf'', ''propertyIsEnumerable'',
      ''toString'', ''valueOf'', ''__proto__'', ''toLocaleString'']"

text \<open>
  What the \<open>impact\<close> field of a result can hold at run time: a member of the enum, or the
  member of \<open>Object.prototype\<close> that a read of the mapping returned.
\<close>

datatype impact_value = ImpactV Impact | Inherited string

text \<open>\<open>type in TypeToImpactMapping\<close> and \<open>TypeToImpactMapping[type]\<close>.\<close>

definition in_mapping :: "string \<Rightarrow> bool" where
  "in_mapping ty = (ty \<in> set (map fst TypeToImpactMapping) \<or> ty \<in> set object_prototype_keys)"

definition mapping_get :: "string \<Rightarrow> impact_value option" where
  "mapping_get ty =
     (case map_of TypeToImpactMapping ty of
        Some i \<Rightarrow> Some (ImpactV i)
      | None \<Rightarrow> if ty \<in> set object_prototype_keys then Some (Inherited ty) else None)"

record ParsedCommitInfo =
  type :: string
  impact :: impact_value

subsection \<open>The title\<close>

text \<open>
  \<open>\w\<close>, \<open>\s\<close> and the line terminators that \<open>.\<close> excludes, on code units below 256: of the
  four line terminators (line feed, carriage return, U+2028 and U+2029) the first two
  are such code units, and strings with the other two are outside the development.
\<close>

definition is_word_char :: "char \<Rightarrow> bool" where
  "is_word_char c = (is_letter c \<or> is_digit c \<or> c = CHR ''_'')"

definition is_space :: "char \<Rightarrow> bool" where
  "is_space c =
     (c = CHR 0x09 \<or> c = CHR 0x0A \<or> c = CHR 0x0B \<or> c = CHR 0x0C \<or> c = CHR 0x0D
       \<or> c = CHR '' '' \<or> c = CHR 0xA0)"

definition is_line_terminator :: "char \<Rightarrow> bool" where
  "is_line_terminator c = (c = CHR 0x0A \<or> c = CHR 0x0D)"

text \<open>
  The optional group \<open>(?:\(([^)]+)\))?\<close>: at an opening parenthesis followed by a
  non-empty run of characters other than \<open>)\<close> and then \<open>)\<close> the group is consumed;
  anywhere else it matches nothing, and the text is left as it is.
\<close>

fun skip_scope :: "string \<Rightarrow> string" where
  "skip_scope [] = []"
| "skip_scope (c # cs) =
     (if c = CHR ''(''
          \<and> takeWhile (\<lambda>x. x \<noteq> CHR '')'') cs \<noteq> []
          \<and> dropWhile (\<lambda>x. x \<noteq> CHR '')'') cs \<noteq> []
      then tl (dropWhile (\<lambda>x. x \<noteq> CHR '')'') cs)
      else c # cs)"

text \<open>The optional group \<open>(!)?\<close>: whether it took part, and the text after it.\<close>

fun skip_breaking :: "string \<Rightarrow> bool \<times> string" where
  "skip_breaking [] = (False, [])"
| "skip_breaking (c # cs) = (if c = CHR ''!'' then (True, cs) else (False, c # cs))"

text \<open>
  \<open>\s*(.*)$\<close>: some prefix of white space, then characters other than line terminators
  up to the end.  The line terminators are white space, so this matches when nothing
  after the leading white space is a line terminator.
\<close>

definition description_ok :: "string \<Rightarrow> bool" where
  "description_ok r = list_all (\<lambda>c. \<not> is_line_terminator c) (dropWhile is_space r)"

text \<open>
  The pattern of a title,
  \<open>^(?<type>\w+)(?:\((?<scope>[^)]+)\))?(?<breaking>!)?:\s*(?<description>.*)$\<close>,
  with the groups \<open>type\<close> and \<open>breaking\<close> of a match.  The type is the longest run of
  word characters, since \<open>(\<close>, \<open>!\<close> and \<open>:\<close> are none.
\<close>

definition title_re :: "string \<Rightarrow> (string \<times> bool) option" where
  "title_re title =
     (let commit_type = takeWhile is_word_char title in
      if commit_type = [] then None
      else
        (case skip_breaking (skip_scope (dropWhile is_word_char title)) of
           (breaking, r) \<Rightarrow>
             (case r of
                [] \<Rightarrow> None
              | c # description \<Rightarrow>
                  if c = CHR '':'' \<and> description_ok description
                  then Some (commit_type, breaking) else None)))"

definition ParseConventionalTitle :: "string \<Rightarrow> ParsedCommitInfo option" where
  "ParseConventionalTitle title =
     (case title_re title of
        None \<Rightarrow> None
      | Some (commit_type, breaking) \<Rightarrow>
          if commit_type = [] then None
          else if \<not> in_mapping commit_type then None
          else
            (case mapping_get commit_type of
               None \<Rightarrow> None
             | Some i \<Rightarrow>
                 Some \<lparr>type = commit_type,
                       impact = (if breaking then ImpactV MAJOR else i)\<rparr>))"

subsection \<open>The body\<close>

text \<open>
  The pattern of the release notes is
  \<open>---\n\n### Release Notes\n\n<details>(?:.|\n)*<\/details>\n\n---\<close>; \<open>notes_head\<close> is
  the literal before the star and \<open>notes_tail\<close> the literal after it.
\<close>

definition notes_head :: string where
  "notes_head =
     ''---'' @ [CHR 0x0A, CHR 0x0A] @ ''### Release Notes'' @ [CHR 0x0A, CHR 0x0A] @ ''<details>''"

definition notes_tail :: string where
  "notes_tail = ''</details>'' @ [CHR 0x0A, CHR 0x0A] @ ''---''"

fun strip_prefix :: "string \<Rightarrow> string \<Rightarrow> string option" where
  "strip_prefix [] s = Some s"
| "strip_prefix (p # ps) [] = None"
| "strip_prefix (p # ps) (c # cs) = (if p = c then strip_prefix ps cs else None)"

text \<open>\<open>(?:.|\n)\<close>: any character but a line terminator, or a line feed.\<close>

definition dot_or_nl :: "char \<Rightarrow> bool" where
  "dot_or_nl c = (\<not> is_line_terminator c \<or> c = CHR 0x0A)"

text \<open>
  \<open>(?:.|\n)*<\/details>\n\n---\<close> from a position on, as the backtracking matcher runs it:
  the star first takes the character and the rest is tried behind it; only when that
  fails is the closing literal tried at the position itself.  The result is the text
  after the match.
\<close>

fun greedy_tail :: "string \<Rightarrow> string option" where
  "greedy_tail [] = strip_prefix notes_tail []"
| "greedy_tail (c # cs) =
     (if dot_or_nl c then
        (case greedy_tail cs of
           Some r \<Rightarrow> Some r
         | None \<Rightarrow> strip_prefix notes_tail (c # cs))
      else strip_prefix notes_tail (c # cs))"

definition match_notes :: "string \<Rightarrow> string option" where
  "match_notes s =
     (case strip_prefix notes_head s of None \<Rightarrow> None | Some r \<Rightarrow> greedy_tail r)"

text \<open>\<open>body.replace(re, '')\<close>: the leftmost match is removed, a body without match is kept.\<close>

fun replace_notes :: "string \<Rightarrow> string" where
  "replace_notes [] = (case match_notes [] of Some r \<Rightarrow> r | None \<Rightarrow> [])"
| "replace_notes (c # cs) =
     (case match_notes (c # cs) of Some r \<Rightarrow> r | None \<Rightarrow> c # replace_notes cs)"

text \<open>\<open>s.includes(t)\<close>.\<close>

fun includes_str :: "string \<Rightarrow> string \<Rightarrow> bool" where
  "includes_str [] t = (strip_prefix t [] \<noteq> None)"
| "includes_str (c # cs) t = (strip_prefix t (c # cs) \<noteq> None \<or> includes_str cs t)"

definition ParseConventionalBody :: "string \<Rightarrow> Impact option" where
  "ParseConventionalBody body =
     (let clean_body = replace_notes body
      in if includes_str clean_body ''BREAKING CHANGE'' then Some MAJOR else None)"

subsection \<open>Title and body together\<close>

text \<open>
  \<open>body_impact > impact.impact\<close>: a member of \<open>Object.prototype\<close> converts to \<open>NaN\<close>, and
  every comparison with \<open>NaN\<close> is false.
\<close>

fun js_gt :: "Impact \<Rightarrow> impact_value \<Rightarrow> bool" where
  "js_gt b (ImpactV i) = (impact_num b > impact_num i)"
| "js_gt b (Inherited k) = False"

text \<open>
  The argument is a pull request or a commit; only its title and its optional body are
  read.  A body impact of \<open>0\<close> would be falsy.
\<close>

definition getConventionalImpact :: "string \<Rightarrow> string option \<Rightarrow> ParsedCommitInfo option" where
  "getConventionalImpact title body =
     (case ParseConventionalTitle title of
        None \<Rightarrow> None
      | Some info \<Rightarrow>
          if truthy body then
            (case ParseConventionalBody (str_of body) of
               None \<Rightarrow> Some info
             | Some body_impact \<Rightarrow>
                 if impact_num body_impact \<noteq> 0 \<and> js_gt body_impact (impact info)
                 then Some (info\<lparr>impact := ImpactV body_impact\<rparr>)
                 else Some info)
          else Some info)"


section \<open>Aggregation and release candidates (src/main.ts)\<close>

text \<open>
  Of a pull request the engine reads the title, the body, the labels and the merged
  flag; of a commit the title and the optional body.  The calls that only log are not
  part of the model.
\<close>

record Label =
  name :: string

record PullRequest =
  title :: string
  body :: string
  labels :: "Label list"
  merged :: bool

record Commit =
  sha :: string
  title :: string
  body :: "string option"

text \<open>
  \<open>Math.max\<close> over the impacts of the commits: a value that is no number makes the
  result \<open>NaN\<close>.  The list is never empty where the maximum is taken and its numbers are
  not negative, so the fold may start from \<open>0\<close>.
\<close>

datatype max_impact = MaxOf Impact | MaxNaN

fun max_step :: "max_impact \<Rightarrow> impact_value \<Rightarrow> max_impact" where
  "max_step MaxNaN v = MaxNaN"
| "max_step (MaxOf m) (Inherited k) = MaxNaN"
| "max_step (MaxOf m) (ImpactV i) = MaxOf (if impact_num m < impact_num i then i else m)"

definition Math_max :: "impact_value list \<Rightarrow> max_impact" where
  "Math_max vs = foldl max_step (MaxOf NOIMPACT) vs"

record ImpactResult =
  prImpact :: "ParsedCommitInfo option"
  commitImpacts :: "ParsedCommitInfo list"
  maxCommitImpact :: "max_impact option"
  finalImpact :: "ParsedCommitInfo option"
  warning :: "string option"

text \<open>
  \<open>a != b\<close> and \<open>a === b\<close> between the impact of the title and the maximum: two enum
  members compare by value, and neither \<open>NaN\<close> nor a member of \<open>Object.prototype\<close> equals
  anything here.
\<close>

fun loose_ne :: "impact_value \<Rightarrow> max_impact \<Rightarrow> bool" where
  "loose_ne (ImpactV i) (MaxOf m) = (i \<noteq> m)"
| "loose_ne _ _ = True"

fun strict_eq :: "impact_value \<Rightarrow> max_impact \<Rightarrow> bool" where
  "strict_eq (ImpactV i) (MaxOf m) = (i = m)"
| "strict_eq _ _ = False"

text \<open>\<open>Impact[x]\<close> inside a template literal: the name of the member, else \<open>undefined\<close>.\<close>

fun Impact_name :: "Impact \<Rightarrow> string" where
  "Impact_name NOIMPACT = ''NOIMPACT''"
| "Impact_name PATCH = ''PATCH''"
| "Impact_name MINOR = ''MINOR''"
| "Impact_name MAJOR = ''MAJOR''"

fun value_name :: "impact_value \<Rightarrow> string" where
  "value_name (ImpactV i) = Impact_name i"
| "value_name (Inherited k) = ''undefined''"

fun max_name :: "max_impact \<Rightarrow> string" where
  "max_name (MaxOf i) = Impact_name i"
| "max_name MaxNaN = ''undefined''"

definition getImpactFromGithub :: "PullRequest \<Rightarrow> Commit list \<Rightarrow> ImpactResult" where
  "getImpactFromGithub pr commits =
     (let pr_impact = getConventionalImpact (PullRequest.title pr) (Some (PullRequest.body pr));
          commit_impacts =
            List.map_filter (\<lambda>commit. getConventionalImpact (Commit.title commit) (Commit.body commit))
              commits;
          max_commit_impact =
            (if commit_impacts \<noteq> [] then Some (Math_max (map impact commit_impacts)) else None);
          result = (\<lambda>final_impact w.
            \<lparr>prImpact = pr_impact, commitImpacts = commit_impacts,
             maxCommitImpact = max_commit_impact, finalImpact = final_impact, warning = w\<rparr>)
      in case pr_impact of
           Some p \<Rightarrow>
             (case max_commit_impact of
                Some m \<Rightarrow>
                  if loose_ne (impact p) m then
                    result (Some p)
                      (Some (''Impact from PR title ('' @ value_name (impact p)
                         @ '') differs from maximum commit impact ('' @ max_name m
                         @ ''). Using PR title impact ('' @ value_name (impact p)
                         @ '') for version bump.''))
                  else result (Some p) None
              | None \<Rightarrow> result (Some p) None)
         | None \<Rightarrow>
             (case max_commit_impact of
                Some m \<Rightarrow> result (find (\<lambda>c. strict_eq (impact c) m) commit_impacts) None
              | None \<Rightarrow> result None None))"

subsection \<open>Release candidates\<close>

text \<open>\<open>toLowerCase\<close> on code units below 256: the letters \<open>A\<close> to \<open>Z\<close> and the capital
  letters of Latin-1 move up by 32.\<close>

definition to_lower_char :: "char \<Rightarrow> char" where
  "to_lower_char c =
     (let n = (of_char c :: nat)
      in if (65 \<le> n \<and> n \<le> 90) \<or> (192 \<le> n \<and> n \<le> 222 \<and> n \<noteq> 215)
         then char_of (n + 32) else c)"

definition toLowerCase :: "string \<Rightarrow> string" where
  "toLowerCase s = map to_lower_char s"

text \<open>
  The tags come from outside: \<open>local_rcs baseline\<close> are the names that the local
  repository answers for a baseline and \<open>github_rcs token baseline\<close> those of the host;
  both calls catch their own failures and answer with the empty list.  The names are
  parsed and the unparsable ones dropped.
\<close>

definition getReleaseCandidatesSinceLatestRelease ::
  "(SemanticVersion \<Rightarrow> string list) \<Rightarrow> (string \<Rightarrow> SemanticVersion \<Rightarrow> string list)
    \<Rightarrow> string \<Rightarrow> SemanticVersion \<Rightarrow> SemanticVersion list" where
  "getReleaseCandidatesSinceLatestRelease local_rcs github_rcs token baseline =
     (let localResults = local_rcs baseline
      in if localResults \<noteq> [] then List.map_filter parse localResults
         else if token = [] then []
         else List.map_filter parse (github_rcs token baseline))"

text \<open>
  The label test runs before the merged test; neither can fail.  The result is the
  prerelease string, \<open>undefined\<close> being \<open>None\<close>; an exception of \<open>bump\<close> would pass through.
\<close>

definition handle_release_candidates ::
  "(SemanticVersion \<Rightarrow> string list) \<Rightarrow> (string \<Rightarrow> SemanticVersion \<Rightarrow> string list)
    \<Rightarrow> string \<Rightarrow> PullRequest \<Rightarrow> Impact \<Rightarrow> SemanticVersion \<Rightarrow> error + string option" where
  "handle_release_candidates local_rcs github_rcs token pr imp last_release_version =
     (let is_prerelease =
            list_ex (\<lambda>label. toLowerCase (name label) = ''release-candidate'') (labels pr)
      in if merged pr then Inr None
         else if is_prerelease then
           (case bump last_release_version imp None None of
              Inl e \<Rightarrow> Inl e
            | Inr bumped_base \<Rightarrow>
                (let previous_release_candidates =
                       getReleaseCandidatesSinceLatestRelease local_rcs github_rcs token bumped_base;
                     rcNames = map toString previous_release_candidates;
                     nextRc = nextRcIndex bumped_base rcNames
                 in Inr (Some (''rc'' @ show_number nextRc))))
         else Inr None)"

text \<open>The names that reach the parser in \<open>getReleaseCandidatesSinceLatestRelease\<close>.\<close>

definition fetched_tag_names ::
  "(SemanticVersion \<Rightarrow> string list) \<Rightarrow> (string \<Rightarrow> SemanticVersion \<Rightarrow> string list)
    \<Rightarrow> string \<Rightarrow> SemanticVersion \<Rightarrow> string list" where
  "fetched_tag_names local_rcs github_rcs token baseline =
     (if local_rcs baseline \<noteq> [] then local_rcs baseline
      else if token = [] then [] else github_rcs token baseline)"


subsection \<open>Auxiliary notions for the aggregation\<close>

text \<open>
  The commits that classify, and what it means that \<open>m\<close> is the maximum impact among
  classified commits: some commit has it, and every commit has an impact of the enum
  that is not above it.
\<close>

definition classified_commits :: "Commit list \<Rightarrow> ParsedCommitInfo list" where
  "classified_commits commits =
     List.map_filter (\<lambda>commit. getConventionalImpact (Commit.title commit) (Commit.body commit))
       commits"

fun not_above :: "Impact \<Rightarrow> impact_value \<Rightarrow> bool" where
  "not_above m (ImpactV i) = (impact_num i \<le> impact_num m)"
| "not_above m (Inherited k) = False"

definition is_max_impact :: "ParsedCommitInfo list \<Rightarrow> Impact \<Rightarrow> bool" where
  "is_max_impact cs m =
     (list_ex (\<lambda>c. impact c = ImpactV m) cs \<and> list_all (\<lambda>c. not_above m (impact c)) cs)"


subsection \<open>Auxiliary notions for the body\<close>

text \<open>
  A block as the specification words it: the head of the release notes, then text
  that ends with the first closing literal after the head.  \<open>after_first t s\<close> is what
  follows the first occurrence of \<open>t\<close> in \<open>s\<close>.
\<close>

fun after_first :: "string \<Rightarrow> string \<Rightarrow> string option" where
  "after_first t [] = strip_prefix t []"
| "after_first t (c # cs) =
     (case strip_prefix t (c # cs) of Some r \<Rightarrow> Some r | None \<Rightarrow> after_first t cs)"

definition release_notes_block :: "string \<Rightarrow> bool" where
  "release_notes_block blk =
     (case strip_prefix notes_head blk of
        None \<Rightarrow> False
      | Some r \<Rightarrow> after_first notes_tail r = Some [])"


subsection \<open>Auxiliary notions for the order of versions\<close>











text \<open>The value of a finite number, and the finite comparison of two versions.\<close>

fun fin_val :: "number \<Rightarrow> int" where
  "fin_val (Fin i) = i"
| "fin_val x = 0"





text \<open>Versions without build metadata, as \<open>new SemanticVersion(ma, mi, pa, p)\<close> makes them.\<close>

definition release :: "nat \<Rightarrow> nat \<Rightarrow> nat \<Rightarrow> SemanticVersion" where
  "release ma mi pa =
     \<lparr>major = Fin (int ma), minor = Fin (int mi), patch = Fin (int pa),
      prerelease = None, buildmetadata = None\<rparr>"

definition pre_release :: "nat \<Rightarrow> nat \<Rightarrow> nat \<Rightarrow> string \<Rightarrow> SemanticVersion" where
  "pre_release ma mi pa p =
     \<lparr>major = Fin (int ma), minor = Fin (int mi), patch = Fin (int pa),
      prerelease = Some p, buildmetadata = None\<rparr>"


subsection \<open>Auxiliary notions for the round trip\<close>

text \<open>
  A version whose optional strings are absent or inside their grammars; a number that
  is a non-negative integer below \<open>2 ^ 53\<close>, where every integer is a double of its own;
  and the \<open>MAJOR.MINOR.PATCH\<close> part of a rendering.
\<close>

definition valid_version :: "SemanticVersion \<Rightarrow> bool" where
  "valid_version v =
     ((case prerelease v of None \<Rightarrow> True | Some p \<Rightarrow> prerelease_re p) \<and>
      (case buildmetadata v of None \<Rightarrow> True | Some b \<Rightarrow> buildmetadata_re b))"

fun safe_natural :: "number \<Rightarrow> bool" where
  "safe_natural (Fin i) = (0 \<le> i \<and> i < 2 ^ 53)"
| "safe_natural x = False"

definition safe_core :: "SemanticVersion \<Rightarrow> bool" where
  "safe_core v = (safe_natural (major v) \<and> safe_natural (minor v) \<and> safe_natural (patch v))"

text \<open>Tag names whose versions, where they parse, have three such numbers.\<close>

definition safe_tags :: "string list \<Rightarrow> bool" where
  "safe_tags tagNames =
     list_all (\<lambda>s. case parse s of None \<Rightarrow> True | Some v \<Rightarrow> safe_core v) tagNames"

definition core_string :: "SemanticVersion \<Rightarrow> string" where
  "core_string v =
     show_number (major v) @ ''.'' @ show_number (minor v) @ ''.'' @ show_number (patch v)"


section \<open>Properties of the numbers\<close>






lemma to_double_nat_small: "n \<le> 2 ^ 53 \<Longrightarrow> to_double_nat n = Fin (int n)"
proof -
  assume a: "n \<le> 2 ^ 53"
  have "(2::nat) ^ 53 < 2 ^ 1024" by (simp add: power_strict_increasing)
  with a have "\<not> 2 ^ 1024 \<le> n" by simp
  with a show ?thesis by (simp add: to_double_nat_def round_nat_def Let_def)
qed



lemma to_double_nat_not_NaN [simp]: "to_double_nat n \<noteq> NaN"
  by (simp add: to_double_nat_def Let_def)

lemma to_double_nat_not_NegInf [simp]: "to_double_nat n \<noteq> NegInf"
  by (simp add: to_double_nat_def Let_def)




lemma to_double_not_NaN [simp]: "to_double i \<noteq> NaN"
proof -
  have "number_neg (to_double_nat n) \<noteq> NaN" for n
    by (cases "to_double_nat n") simp_all
  then show ?thesis by (simp add: to_double_def)
qed




lemma to_double_small: "0 \<le> i \<Longrightarrow> i \<le> 2 ^ 53 \<Longrightarrow> to_double i = Fin i"
proof -
  assume a: "0 \<le> i" "i \<le> 2 ^ 53"
  then have "nat i \<le> 2 ^ 53" by (simp add: nat_le_iff)
  with a show ?thesis by (simp add: to_double_def to_double_nat_small)
qed



lemma number_gt_Fin_zero: "number_gt (Fin 0) (Fin m) = (m < 0)"
  by simp


section \<open>Properties\<close>

subsection \<open>Evaluation of the regular expressions on literals\<close>

lemmas char_class_defs = is_dot_def is_digit_def is_nonzero_digit_def is_letter_def
  is_letter_or_hyphen_def is_ident_char_def is_rc_separator_def is_r_def is_c_def

lemmas semver_eval = char_class_defs re_numeric_def re_alnum_ident_def prerelease_re_def
  buildmetadata_re_def all_digits_def split_first_def semver_re_def parse_def Number_def
  dec_value_def digit_val_def to_double_nat_small

subsection \<open>Construction\<close>

text \<open>
  C9 as stated fails at the empty string: it is outside both grammars, and the
  constructor accepts it in either position.
\<close>

theorem new_SemanticVersion_empty_accepted:
  "\<not> prerelease_re [] \<and> \<not> buildmetadata_re [] \<and>
   new_SemanticVersion (Fin 1) (Fin 0) (Fin 0) (Some []) (Some [])
     = Inr \<lparr>major = Fin 1, minor = Fin 0, patch = Fin 0, prerelease = Some [],
            buildmetadata = Some []\<rparr>"
  by (simp add: new_SemanticVersion_def prerelease_re_def buildmetadata_re_def re_numeric_def
      re_alnum_ident_def)

text \<open>
  C9, amended: a non-empty prerelease outside the prerelease grammar makes the
  constructor throw, and so does a non-empty build metadata string outside its grammar;
  with each argument absent, empty or inside its grammar the constructor returns the
  instance that holds the five arguments as given.
\<close>

theorem new_SemanticVersion_validation:
  "(pre = Some p \<and> p \<noteq> [] \<and> \<not> prerelease_re p \<longrightarrow>
      new_SemanticVersion ma mi pa pre bm = Inl (Error (''Invalid prerelease format: '' @ p))) \<and>
   (bm = Some b \<and> b \<noteq> [] \<and> \<not> buildmetadata_re b \<longrightarrow>
      isl (new_SemanticVersion ma mi pa pre bm)) \<and>
   ((pre = None \<or> pre = Some [] \<or> prerelease_re (str_of pre)) \<and>
    (bm = None \<or> bm = Some [] \<or> buildmetadata_re (str_of bm)) \<longrightarrow>
      new_SemanticVersion ma mi pa pre bm
        = Inr \<lparr>major = ma, minor = mi, patch = pa, prerelease = pre, buildmetadata = bm\<rparr>)"
  by (cases pre; cases bm) (auto simp: new_SemanticVersion_def)

theorem new_SemanticVersion_validation_witness:
  "\<not> prerelease_re ''*bad*'' \<and> \<not> buildmetadata_re ''bad meta'' \<and>
   new_SemanticVersion (Fin 1) (Fin 0) (Fin 0) (Some ''*bad*'') None
     = Inl (Error ''Invalid prerelease format: *bad*'') \<and>
   isl (new_SemanticVersion (Fin 1) (Fin 0) (Fin 0) None (Some ''bad meta'')) \<and>
   prerelease_re ''rc.1'' \<and> buildmetadata_re ''build.5'' \<and>
   new_SemanticVersion (Fin 1) (Fin 0) (Fin 0) (Some ''rc.1'') (Some ''build.5'')
     = Inr \<lparr>major = Fin 1, minor = Fin 0, patch = Fin 0, prerelease = Some ''rc.1'',
            buildmetadata = Some ''build.5''\<rparr>"
  using
    new_SemanticVersion_validation [where pre = "Some ''*bad*''" and p = "''*bad*''"
      and bm = None and b = "[]" and ma = "Fin 1" and mi = "Fin 0" and pa = "Fin 0"]
    new_SemanticVersion_validation [where pre = None and p = "[]"
      and bm = "Some ''bad meta''" and b = "''bad meta''" and ma = "Fin 1" and mi = "Fin 0"
      and pa = "Fin 0"]
    new_SemanticVersion_validation [where pre = "Some ''rc.1''" and p = "[]"
      and bm = "Some ''build.5''" and b = "[]" and ma = "Fin 1" and mi = "Fin 0" and pa = "Fin 0"]
  by (simp add: semver_eval)

subsection \<open>Rendering and parsing\<close>

lemma digit_cases: "d < 10 \<Longrightarrow> d = 0 \<or> d = 1 \<or> d = 2 \<or> d = 3 \<or> d = 4 \<or> d = 5 \<or> d = 6 \<or> d = 7 \<or> d = 8 \<or> d = (9::nat)"
  by arith

lemma is_digit_digit_char: "d < 10 \<Longrightarrow> is_digit (digit_char d)"
  by (drule digit_cases) (auto simp: digit_char_def is_digit_def)

lemma digit_val_digit_char: "d < 10 \<Longrightarrow> digit_val (digit_char d) = d"
  by (drule digit_cases) (auto simp: digit_val_def digit_char_def)

lemma nonzero_digit_char: "0 < d \<Longrightarrow> d < 10 \<Longrightarrow> is_nonzero_digit (digit_char d)"
  by (drule digit_cases) (auto simp: digit_char_def is_nonzero_digit_def)

lemma show_nat_digits: "list_all is_digit (show_nat n)"
proof (induction n rule: show_nat.induct)
  case (1 n)
  show ?case
  proof (cases "n < 10")
    case True
    then show ?thesis by (simp add: show_nat.simps [of n] is_digit_digit_char)
  next
    case False
    then show ?thesis using 1 by (simp add: show_nat.simps [of n] is_digit_digit_char)
  qed
qed

lemma show_nat_nonempty: "show_nat n \<noteq> []"
  by (simp add: show_nat.simps [of n])

lemma dec_value_snoc: "dec_value (ds @ [c]) = 10 * dec_value ds + digit_val c"
  by (simp add: dec_value_def)

lemma dec_value_show_nat: "dec_value (show_nat n) = n"
proof (induction n rule: show_nat.induct)
  case (1 n)
  show ?case
  proof (cases "n < 10")
    case True
    then show ?thesis by (simp add: show_nat.simps [of n] dec_value_def digit_val_digit_char)
  next
    case False
    then have "dec_value (show_nat n)
        = 10 * dec_value (show_nat (n div 10)) + digit_val (digit_char (n mod 10))"
      by (simp add: show_nat.simps [of n] dec_value_snoc)
    then show ?thesis using 1 False by (simp add: digit_val_digit_char)
  qed
qed

lemma show_nat_hd: "0 < n \<Longrightarrow> is_nonzero_digit (hd (show_nat n))"
proof (induction n rule: show_nat.induct)
  case (1 n)
  show ?case
  proof (cases "n < 10")
    case True
    then show ?thesis using 1(2) by (simp add: show_nat.simps [of n] nonzero_digit_char)
  next
    case False
    then have "0 < n div 10" by simp
    then have "is_nonzero_digit (hd (show_nat (n div 10)))" using 1(1) False by simp
    then show ?thesis using False show_nat_nonempty [of "n div 10"]
      by (simp add: show_nat.simps [of n])
  qed
qed

lemma re_numeric_show_nat: "re_numeric (show_nat n)"
proof (cases "n = 0")
  case True
  then show ?thesis by (simp add: re_numeric_def show_nat.simps [of 0] digit_char_def)
next
  case False
  obtain c cs where cs: "show_nat n = c # cs"
    using show_nat_nonempty [of n] by (cases "show_nat n") auto
  have "is_nonzero_digit c" using show_nat_hd [of n] False cs by simp
  moreover have "list_all is_digit cs" using show_nat_digits [of n] cs by simp
  ultimately show ?thesis by (simp add: re_numeric_def cs)
qed


lemma split_on_nonempty: "split_on P s \<noteq> []"
  by (induction s) (auto split: list.splits)

lemma split_on_no_sep: "\<forall>c\<in>set xs. \<not> P c \<Longrightarrow> split_on P xs = [xs]"
  by (induction xs) auto

lemma split_on_append:
  "\<forall>c\<in>set xs. \<not> P c \<Longrightarrow> P d \<Longrightarrow> split_on P (xs @ d # ys) = xs # split_on P ys"
  by (induction xs) auto

lemma split_on_chars:
  "c \<in> set s \<Longrightarrow> P c \<or> (\<exists>w\<in>set (split_on P s). c \<in> set w)"
proof (induction s)
  case Nil
  then show ?case by simp
next
  case (Cons a s)
  obtain w ws where sp: "split_on P s = w # ws"
    using split_on_nonempty [of P s] by (cases "split_on P s") auto
  show ?case
  proof (cases "c = a")
    case True
    then show ?thesis by (auto simp: sp)
  next
    case False
    then have "c \<in> set s" using Cons.prems by simp
    then have "P c \<or> (\<exists>w\<in>set (split_on P s). c \<in> set w)" by (rule Cons.IH)
    then show ?thesis by (auto simp: sp)
  qed
qed

lemma ident_char_plain:
  "is_ident_char c \<Longrightarrow> c \<noteq> CHR ''+'' \<and> c \<noteq> CHR ''.''"
  by (auto simp: char_class_defs)

lemma digit_plain:
  "is_digit c \<Longrightarrow> c \<noteq> CHR ''+'' \<and> c \<noteq> CHR ''.'' \<and> c \<noteq> CHR ''-'' \<and> c \<noteq> CHR ''v''"
  by (auto simp: char_class_defs)

lemma nonzero_digit_is_digit: "is_nonzero_digit c \<Longrightarrow> is_digit c"
  by (auto simp: char_class_defs)

lemma re_numeric_digits: "re_numeric w \<Longrightarrow> list_all is_digit w"
proof (cases w)
  case Nil
  then show ?thesis by simp
next
  case (Cons x xs)
  assume "re_numeric w"
  then have "w = ''0'' \<or> (is_nonzero_digit x \<and> list_all is_digit xs)"
    by (simp add: re_numeric_def Cons)
  then show ?thesis
  proof
    assume "w = ''0''"
    then show ?thesis by (simp add: is_digit_def)
  next
    assume "is_nonzero_digit x \<and> list_all is_digit xs"
    then show ?thesis by (simp add: Cons nonzero_digit_is_digit)
  qed
qed

lemma re_numeric_chars: "re_numeric w \<Longrightarrow> c \<in> set w \<Longrightarrow> is_ident_char c"
  using re_numeric_digits [of w] by (simp add: list_all_iff is_ident_char_def)

lemma re_alnum_ident_chars:
  assumes "re_alnum_ident w" and "c \<in> set w"
  shows "is_ident_char c"
proof -
  have "w = takeWhile is_digit w @ dropWhile is_digit w" by simp
  then have "c \<in> set (takeWhile is_digit w) \<or> c \<in> set (dropWhile is_digit w)"
    using assms(2) by (metis Un_iff set_append)
  then show ?thesis
  proof
    assume "c \<in> set (takeWhile is_digit w)"
    then have "is_digit c" by (rule set_takeWhileD [THEN conjunct2])
    then show ?thesis by (simp add: is_ident_char_def)
  next
    assume d: "c \<in> set (dropWhile is_digit w)"
    then obtain x xs where dw: "dropWhile is_digit w = x # xs"
      by (cases "dropWhile is_digit w") auto
    with assms(1) have "is_letter_or_hyphen x" "list_all is_ident_char xs"
      by (simp_all add: re_alnum_ident_def)
    with d dw show ?thesis by (auto simp: is_ident_char_def list_all_iff)
  qed
qed

lemma prerelease_re_chars:
  assumes "prerelease_re p" and "c \<in> set p"
  shows "is_ident_char c \<or> c = CHR ''.''"
proof -
  from split_on_chars [OF assms(2), of is_dot]
  show ?thesis
  proof
    assume "is_dot c"
    then show ?thesis by (simp add: is_dot_def)
  next
    assume "\<exists>w\<in>set (split_on is_dot p). c \<in> set w"
    then obtain w where w: "w \<in> set (split_on is_dot p)" "c \<in> set w" by blast
    with assms(1) have "re_numeric w \<or> re_alnum_ident w"
      by (simp add: prerelease_re_def list_all_iff)
    with w(2) show ?thesis using re_numeric_chars re_alnum_ident_chars by blast
  qed
qed

lemma prerelease_re_no_plus: "prerelease_re p \<Longrightarrow> CHR ''+'' \<notin> set p"
  using prerelease_re_chars [of p "CHR ''+''"] ident_char_plain [of "CHR ''+''"] by auto

lemma prerelease_re_nonempty: "prerelease_re p \<Longrightarrow> p \<noteq> []"
  by (auto simp: prerelease_re_def re_numeric_def re_alnum_ident_def)

lemma buildmetadata_re_nonempty: "buildmetadata_re p \<Longrightarrow> p \<noteq> []"
  by (auto simp: buildmetadata_re_def)

lemma split_first_found: "c \<notin> set xs \<Longrightarrow> split_first c (xs @ c # ys) = (xs, Some ys)"
proof -
  assume a: "c \<notin> set xs"
  then have t: "takeWhile (\<lambda>x. x \<noteq> c) (xs @ c # ys) = xs"
    by (induction xs) auto
  from a have d: "dropWhile (\<lambda>x. x \<noteq> c) (xs @ c # ys) = c # ys"
    by (induction xs) auto
  show ?thesis unfolding split_first_def t d by simp
qed

lemma split_first_missing: "c \<notin> set xs \<Longrightarrow> split_first c xs = (xs, None)"
proof -
  assume a: "c \<notin> set xs"
  then have t: "takeWhile (\<lambda>x. x \<noteq> c) xs = xs" by (induction xs) auto
  from a have d: "dropWhile (\<lambda>x. x \<noteq> c) xs = []" by (induction xs) auto
  show ?thesis unfolding split_first_def t d by simp
qed

lemma show_nat_plain:
  "c \<in> set (show_nat n) \<Longrightarrow> c \<noteq> CHR ''+'' \<and> c \<noteq> CHR ''.'' \<and> c \<noteq> CHR ''-'' \<and> c \<noteq> CHR ''v''"
  using show_nat_digits [of n] digit_plain [of c] by (simp add: list_all_iff)

text \<open>Below \<open>2 ^ 53\<close> a number is rendered by its decimal digits and read back from them.\<close>

lemma safe_natural_Fin: "safe_natural x \<Longrightarrow> x = Fin (int (nat (fin_val x))) \<and> nat (fin_val x) < 2 ^ 53"
  by (cases x) (simp_all add: nat_less_iff)

lemma show_number_safe: "safe_natural x \<Longrightarrow> show_number x = show_nat (nat (fin_val x))"
  by (cases x) (simp_all add: show_pos_def nat_less_iff)

lemma Number_show_number:
  assumes "safe_natural x"
  shows "Number (show_number x) = x"
proof -
  from safe_natural_Fin [OF assms]
  have x: "x = Fin (int (nat (fin_val x)))" and b: "nat (fin_val x) < 2 ^ 53" by simp_all
  have "Number (show_number x) = to_double_nat (nat (fin_val x))"
    by (simp add: Number_def show_number_safe [OF assms] dec_value_show_nat)
  also have "\<dots> = Fin (int (nat (fin_val x)))"
    using b by (intro to_double_nat_small) simp
  finally show ?thesis using x by simp
qed

lemma show_number_plain:
  "safe_natural x \<Longrightarrow> c \<in> set (show_number x)
     \<Longrightarrow> c \<noteq> CHR ''+'' \<and> c \<noteq> CHR ''.'' \<and> c \<noteq> CHR ''-'' \<and> c \<noteq> CHR ''v''"
  using show_nat_plain [of c "nat (fin_val x)"] by (simp add: show_number_safe)

lemma re_numeric_show_number: "safe_natural x \<Longrightarrow> re_numeric (show_number x)"
  by (simp add: show_number_safe re_numeric_show_nat)

lemma show_number_nonempty: "safe_natural x \<Longrightarrow> show_number x \<noteq> []"
  by (simp add: show_number_safe show_nat_nonempty)

lemma core_split:
  assumes "safe_core v"
  shows "split_on is_dot (core_string v)
    = [show_number (major v), show_number (minor v), show_number (patch v)]"
proof -
  from assms have s: "safe_natural (major v)" "safe_natural (minor v)" "safe_natural (patch v)"
    by (simp_all add: safe_core_def)
  have nd: "\<And>x. safe_natural x \<Longrightarrow> \<forall>c\<in>set (show_number x). \<not> is_dot c"
    using show_number_plain by (auto simp: is_dot_def)
  have d: "is_dot CHR ''.''" by (simp add: is_dot_def)
  have "split_on is_dot (core_string v)
      = show_number (major v)
          # split_on is_dot (show_number (minor v) @ CHR ''.'' # show_number (patch v))"
    unfolding core_string_def using split_on_append [OF nd [OF s(1)] d] by simp
  also have "split_on is_dot (show_number (minor v) @ CHR ''.'' # show_number (patch v))
      = show_number (minor v) # split_on is_dot (show_number (patch v))"
    by (rule split_on_append [OF nd [OF s(2)] d])
  also have "split_on is_dot (show_number (patch v)) = [show_number (patch v)]"
    by (rule split_on_no_sep [OF nd [OF s(3)]])
  finally show ?thesis .
qed

lemma core_plain:
  "safe_core v \<Longrightarrow> c \<in> set (core_string v) \<Longrightarrow> c \<noteq> CHR ''+'' \<and> c \<noteq> CHR ''-''"
  unfolding core_string_def safe_core_def using show_number_plain by auto

lemma strip_v_core:
  assumes "safe_core v"
  shows "strip_v (core_string v @ rest) = core_string v @ rest"
proof -
  from assms have s: "safe_natural (major v)" by (simp add: safe_core_def)
  obtain c cs where cs: "show_number (major v) = c # cs"
    using show_number_nonempty [OF s] by (cases "show_number (major v)") auto
  then have "c \<noteq> CHR ''v''" using show_number_plain [OF s, of c] by simp
  then show ?thesis by (simp add: core_string_def cs)
qed

lemma semver_re_toString:
  assumes "valid_version v" and sc: "safe_core v"
  shows "semver_re (toString v)
    = Some (show_number (major v), show_number (minor v), show_number (patch v),
            prerelease v, buildmetadata v)"
proof -
  note strip_v_core = strip_v_core [OF sc]
  note core_split = core_split [OF sc]
  have num: "re_numeric (show_number (major v))" "re_numeric (show_number (minor v))"
    "re_numeric (show_number (patch v))"
    using sc by (simp_all add: safe_core_def re_numeric_show_number)
  have np: "CHR ''+'' \<notin> set (core_string v)" and nm: "CHR ''-'' \<notin> set (core_string v)"
    using core_plain [OF sc] by blast+
  show ?thesis
  proof (cases "prerelease v")
    case None
    note pre = this
    show ?thesis
    proof (cases "buildmetadata v")
      case None
      have ts: "toString v = core_string v @ []" by (simp add: toString_def core_string_def pre None)
      show ?thesis unfolding ts semver_re_def strip_v_core
        using split_first_missing [OF np] split_first_missing [OF nm]
        by (simp add: core_split num pre None)
    next
      case (Some b)
      then have b: "buildmetadata_re b" using assms by (simp add: valid_version_def)
      have ts: "toString v = core_string v @ CHR ''+'' # b"
        using buildmetadata_re_nonempty [OF b] by (simp add: toString_def core_string_def pre Some)
      show ?thesis unfolding ts semver_re_def strip_v_core
        using split_first_found [OF np] split_first_missing [OF nm]
        by (simp add: core_split num pre Some b)
    qed
  next
    case (Some p)
    note pre = this
    then have p: "prerelease_re p" using assms by (simp add: valid_version_def)
    have npp: "CHR ''+'' \<notin> set (core_string v @ CHR ''-'' # p)"
      using np prerelease_re_no_plus [OF p] by simp
    show ?thesis
    proof (cases "buildmetadata v")
      case None
      have ts: "toString v = core_string v @ CHR ''-'' # p"
        using prerelease_re_nonempty [OF p] by (simp add: toString_def core_string_def pre None)
      show ?thesis unfolding ts semver_re_def strip_v_core
        using split_first_missing [OF npp] split_first_found [OF nm]
        by (simp add: core_split num pre None p)
    next
      case (Some b)
      then have b: "buildmetadata_re b" using assms by (simp add: valid_version_def)
      have ts: "toString v = (core_string v @ CHR ''-'' # p) @ CHR ''+'' # b"
        using prerelease_re_nonempty [OF p] buildmetadata_re_nonempty [OF b]
        by (simp add: toString_def core_string_def pre Some)
      have sv: "strip_v ((core_string v @ CHR ''-'' # p) @ CHR ''+'' # b)
          = (core_string v @ CHR ''-'' # p) @ CHR ''+'' # b"
        using strip_v_core [of "CHR ''-'' # p @ CHR ''+'' # b"] by simp
      show ?thesis unfolding ts semver_re_def sv
        using split_first_found [OF npp] split_first_found [OF nm]
        by (simp add: core_split num pre Some p b)
    qed
  qed
qed



lemma parse_toString_valid:
  assumes v: "valid_version v" and sc: "safe_core v"
  shows "parse (toString v) = Some v"
proof -
  have tp: "truthy (prerelease v) = (prerelease v \<noteq> None)"
    using v prerelease_re_nonempty by (cases "prerelease v") (auto simp: valid_version_def)
  have tb: "truthy (buildmetadata v) = (buildmetadata v \<noteq> None)"
    using v buildmetadata_re_nonempty by (cases "buildmetadata v") (auto simp: valid_version_def)
  show ?thesis
    using tp tb sc by (simp add: parse_def semver_re_toString [OF v sc] Number_show_number safe_core_def)
qed


text \<open>The rendering of \<open>10 ^ 21\<close>, the least number that is rendered with an exponent.\<close>

lemma to_double_nat_sextillion:
  "to_double_nat 1000000000000000000000 = Fin 1000000000000000000000"
  by (simp add: to_double_nat_def round_nat_def bit_length.simps Let_def)

lemma to_double_nat_two_sextillion:
  "to_double_nat 2000000000000000000000 = Fin 2000000000000000000000"
  by (simp add: to_double_nat_def round_nat_def bit_length.simps Let_def)

lemma to_double_nat_ten_sextillion:
  "to_double_nat 10000000000000000000000 = Fin 10000000000000000000000"
  by (simp add: to_double_nat_def round_nat_def bit_length.simps Let_def)

lemma length_show_nat_sextillion: "length (show_nat 1000000000000000000000) = 22"
  by (simp add: show_nat.simps)

lemma candidates_sextillion: "candidates 1000000000000000000000 (Suc 0) = [(22, Suc 0)]"
  by (simp add: candidates_def length_show_nat_sextillion Let_def to_double_nat_sextillion
      to_double_nat_two_sextillion to_double_nat_ten_sextillion)

lemma shortest_sextillion: "shortest 1000000000000000000000 = (22, 1, 1)"
  by (simp add: shortest_def length_show_nat_sextillion candidates_sextillion first_digits.simps)

lemma show_big_sextillion:
  "show_big 1000000000000000000000 = show_nat 1 @ ''e+'' @ show_nat 21"
  by (simp add: show_big_def shortest_sextillion)

lemma show_number_sextillion: "show_number (Fin 1000000000000000000000) = ''1e+21''"
  by (simp add: show_pos_def show_big_sextillion) (simp add: show_nat.simps digit_char_def)

lemma show_number_zero: "show_number (Fin 0) = ''0''"
  by (simp add: show_pos_def show_nat.simps digit_char_def)




subsection \<open>The next release-candidate index\<close>








lemma Number_not_NaN [simp]: "Number s \<noteq> NaN"
  by (simp add: Number_def)









lemmas rc_eval = nextRcIndex_def rc_tag_def semver_eval strict_equal_def isNaN_def
  to_double_small release_def





subsection \<open>The order of versions\<close>



























































subsection \<open>Empty prerelease strings\<close>

text \<open>
  C10: an empty prerelease string is handled like an absent one by
  \<open>comparePrerelease\<close>: against every non-empty string \<open>p\<close> the empty string is the greater
  side (\<open>1\<close>), \<open>p\<close> against the empty string gives \<open>-1\<close>, and two empty strings give \<open>0\<close>;
  the same three results hold with \<open>undefined\<close> in place of the empty string, the
  empty string is not in the prerelease grammar, and a version that carries an empty
  prerelease compares like the same version without a prerelease.
\<close>

theorem comparePrerelease_empty_like_absent:
  "p \<noteq> [] \<longrightarrow>
     comparePrerelease lc (Some []) (Some p) = Fin 1 \<and>
     comparePrerelease lc (Some p) (Some []) = Fin (- 1) \<and>
     comparePrerelease lc (Some []) (Some []) = Fin 0 \<and>
     comparePrerelease lc (Some []) (Some p) = comparePrerelease lc None (Some p) \<and>
     comparePrerelease lc (Some p) (Some []) = comparePrerelease lc (Some p) None \<and>
     comparePrerelease lc (Some []) (Some []) = comparePrerelease lc None None \<and>
     \<not> prerelease_re [] \<and>
     compare lc (a\<lparr>prerelease := Some []\<rparr>) b = compare lc (a\<lparr>prerelease := None\<rparr>) b \<and>
     compare lc b (a\<lparr>prerelease := Some []\<rparr>) = compare lc b (a\<lparr>prerelease := None\<rparr>)"
  by (simp add: comparePrerelease_def compare_def Let_def prerelease_re_def re_numeric_def
      re_alnum_ident_def)

theorem comparePrerelease_empty_like_absent_witness:
  "''alpha'' \<noteq> [] \<and>
   comparePrerelease (\<lambda>x y. 0) (Some []) (Some ''alpha'') = Fin 1 \<and>
   comparePrerelease (\<lambda>x y. 0) (Some ''alpha'') (Some []) = Fin (- 1)"
  using comparePrerelease_empty_like_absent [of "''alpha''" "\<lambda>x y. 0"] by simp


section \<open>Properties of the classification\<close>

subsection \<open>Titles\<close>

lemmas title_eval = char_class_defs is_word_char_def is_space_def is_line_terminator_def
  description_ok_def title_re_def ParseConventionalTitle_def in_mapping_def mapping_get_def
  TypeToImpactMapping_def object_prototype_keys_def

lemma ParseConventionalTitle_examples:
  "ParseConventionalTitle ''Feat: x'' = None"
  "ParseConventionalTitle ''feat-prod: x'' = None"
  "ParseConventionalTitle ''unknown: x'' = None"
  "ParseConventionalTitle ''not conventional'' = None"
  "ParseConventionalTitle ''feat: x'' = Some \<lparr>type = ''feat'', impact = ImpactV MINOR\<rparr>"
  "ParseConventionalTitle ''feat(api)!: x'' = Some \<lparr>type = ''feat'', impact = ImpactV MAJOR\<rparr>"
  by (simp_all add: title_eval)

lemma ParseConventionalTitle_recognized:
  assumes "title_re t = Some (ty, br)" and "map_of TypeToImpactMapping ty = Some i"
  shows "ParseConventionalTitle t
    = Some \<lparr>type = ty, impact = ImpactV (if br then MAJOR else i)\<rparr>"
proof -
  have "ty \<noteq> []" using assms(2) by (auto simp: TypeToImpactMapping_def split: if_splits)
  moreover have "in_mapping ty"
    using assms(2) by (auto simp: in_mapping_def dest: map_of_SomeD intro: rev_image_eqI)
  ultimately show ?thesis using assms by (simp add: ParseConventionalTitle_def mapping_get_def)
qed

lemma title_re_type_nonempty: "title_re t = Some (ty, br) \<Longrightarrow> ty \<noteq> []"
  by (auto simp: title_re_def Let_def split: if_splits prod.splits list.splits)

lemma in_mapping_get: "in_mapping ty \<Longrightarrow> mapping_get ty \<noteq> None"
proof (cases "map_of TypeToImpactMapping ty")
  case None
  assume "in_mapping ty"
  then have "ty \<in> set object_prototype_keys"
    using None by (simp add: in_mapping_def map_of_eq_None_iff)
  then show ?thesis using None by (simp add: mapping_get_def)
next
  case (Some i)
  then show ?thesis by (simp add: mapping_get_def)
qed

lemma ParseConventionalTitle_None_iff:
  "ParseConventionalTitle t = None \<longleftrightarrow>
     (case title_re t of None \<Rightarrow> True | Some (ty, br) \<Rightarrow> \<not> in_mapping ty)"
proof (cases "title_re t")
  case None
  then show ?thesis by (simp add: ParseConventionalTitle_def)
next
  case (Some g)
  obtain ty br where g: "g = (ty, br)" by (cases g)
  have "ty \<noteq> []" using Some g title_re_type_nonempty by simp
  then show ?thesis using Some g in_mapping_get [of ty]
    by (auto simp: ParseConventionalTitle_def split: option.splits)
qed


text \<open>
  C7 fails on the code at the titles whose type is a property name of
  \<open>Object.prototype\<close>: \<open>constructor\<close> and \<open>toString\<close> are not among the ten recognized tags,
  yet \<open>constructor: x\<close> is classified, with an impact that is no member of the enum, and
  \<open>toString!: x\<close> is classified as \<open>MAJOR\<close>.
\<close>

theorem ParseConventionalTitle_inherited_type:
  "ParseConventionalTitle ''constructor: x''
     = Some \<lparr>type = ''constructor'', impact = Inherited ''constructor''\<rparr> \<and>
   ParseConventionalTitle ''toString!: x''
     = Some \<lparr>type = ''toString'', impact = ImpactV MAJOR\<rparr> \<and>
   ''constructor'' \<notin> set (map fst TypeToImpactMapping) \<and>
   ''toString'' \<notin> set (map fst TypeToImpactMapping)"
  by (simp add: title_eval)


subsection \<open>The aggregation on the example of the specification\<close>

lemmas impact_eval = title_eval getConventionalImpact_def getImpactFromGithub_def Math_max_def
  List.map_filter_def Let_def


text \<open>
  C4 as stated fails: for the title \<open>chore: trivial\<close> with the commits \<open>docs: x\<close> and
  \<open>fix: y\<close> the final impact is not \<open>PATCH\<close>, and a warning is present.
\<close>

theorem getImpactFromGithub_chore_trivial_not_patch:
  "map_option impact (finalImpact (getImpactFromGithub
     \<lparr>PullRequest.title = ''chore: trivial'', body = [], labels = [], merged = False\<rparr>
     [\<lparr>sha = ''a'', title = ''docs: x'', body = None\<rparr>,
      \<lparr>sha = ''b'', title = ''fix: y'', body = None\<rparr>])) \<noteq> Some (ImpactV PATCH) \<and>
   warning (getImpactFromGithub
     \<lparr>PullRequest.title = ''chore: trivial'', body = [], labels = [], merged = False\<rparr>
     [\<lparr>sha = ''a'', title = ''docs: x'', body = None\<rparr>,
      \<lparr>sha = ''b'', title = ''fix: y'', body = None\<rparr>]) \<noteq> None"
  by (simp add: impact_eval)


text \<open>
  C4, amended: the title \<open>chore: trivial\<close> classifies as \<open>chore\<close> with \<open>NOIMPACT\<close>, the
  maximum over the commits \<open>docs: x\<close> and \<open>fix: y\<close> is \<open>PATCH\<close>, the two differ, and so the
  final impact is that of the title, \<open>NOIMPACT\<close>, with the warning that the title
  overrides the commits.
\<close>

theorem getImpactFromGithub_chore_trivial:
  "getImpactFromGithub
     \<lparr>PullRequest.title = ''chore: trivial'', body = [], labels = ls, merged = m\<rparr>
     [\<lparr>sha = s1, title = ''docs: x'', body = None\<rparr>, \<lparr>sha = s2, title = ''fix: y'', body = None\<rparr>]
   = \<lparr>prImpact = Some \<lparr>type = ''chore'', impact = ImpactV NOIMPACT\<rparr>,
      commitImpacts = [\<lparr>type = ''docs'', impact = ImpactV NOIMPACT\<rparr>,
                       \<lparr>type = ''fix'', impact = ImpactV PATCH\<rparr>],
      maxCommitImpact = Some (MaxOf PATCH),
      finalImpact = Some \<lparr>type = ''chore'', impact = ImpactV NOIMPACT\<rparr>,
      warning = Some (''Impact from PR title (NOIMPACT) differs from maximum commit impact (PATCH).''
        @ '' Using PR title impact (NOIMPACT) for version bump.'')\<rparr>"
  by (simp add: impact_eval)



subsection \<open>The policy of the aggregation\<close>

lemma impact_num_inj: "impact_num a = impact_num b \<Longrightarrow> a = b"
  by (cases a; cases b) simp_all

lemma foldl_max_step_NaN: "foldl max_step MaxNaN vs = MaxNaN"
  by (induction vs) simp_all

lemma foldl_max_step:
  "foldl max_step (MaxOf s) vs = MaxOf m \<longleftrightarrow>
     list_all (not_above m) vs \<and> impact_num s \<le> impact_num m \<and> (m = s \<or> ImpactV m \<in> set vs)"
proof (induction vs arbitrary: s)
  case Nil
  show ?case by auto
next
  case (Cons v vs)
  show ?case
  proof (cases v)
    case (Inherited k)
    then show ?thesis by (simp add: foldl_max_step_NaN)
  next
    case (ImpactV i)
    show ?thesis
    proof (cases "impact_num s < impact_num i")
      case True
      then have "foldl max_step (MaxOf s) (v # vs) = foldl max_step (MaxOf i) vs"
        by (simp add: ImpactV)
      then show ?thesis using True Cons.IH [of i] ImpactV by auto
    next
      case False
      then have "foldl max_step (MaxOf s) (v # vs) = foldl max_step (MaxOf s) vs"
        by (simp add: ImpactV)
      then show ?thesis using False Cons.IH [of s] ImpactV
        by (auto dest: impact_num_inj [OF antisym])
    qed
  qed
qed

lemma Math_max_is_max:
  assumes "cs \<noteq> []"
  shows "Math_max (map impact cs) = MaxOf m \<longleftrightarrow> is_max_impact cs m"
proof -
  have zero: "\<And>v. not_above NOIMPACT v \<Longrightarrow> v = ImpactV NOIMPACT"
  proof -
    fix v assume "not_above NOIMPACT v"
    then show "v = ImpactV NOIMPACT"
      by (cases v) (auto intro: impact_num_inj)
  qed
  have "list_all (not_above m) (map impact cs) \<and> m = NOIMPACT
      \<Longrightarrow> ImpactV m \<in> set (map impact cs)"
  proof -
    assume a: "list_all (not_above m) (map impact cs) \<and> m = NOIMPACT"
    obtain c cs' where c: "cs = c # cs'" using assms by (cases cs) auto
    with a have "not_above NOIMPACT (impact c)" by auto
    then have "impact c = ImpactV NOIMPACT" by (rule zero)
    with a c show ?thesis by simp
  qed
  then have mem: "list_all (not_above m) (map impact cs)
      \<Longrightarrow> (m = NOIMPACT \<or> ImpactV m \<in> set (map impact cs)) = (ImpactV m \<in> set (map impact cs))"
    by blast
  have ex: "list_ex (\<lambda>c. impact c = ImpactV m) cs \<longleftrightarrow> ImpactV m \<in> set (map impact cs)"
    by (force simp: list_ex_iff)
  have al: "list_all (\<lambda>c. not_above m (impact c)) cs \<longleftrightarrow> list_all (not_above m) (map impact cs)"
    by (simp add: list_all_iff)
  have "Math_max (map impact cs) = MaxOf m \<longleftrightarrow>
      list_all (not_above m) (map impact cs) \<and> (m = NOIMPACT \<or> ImpactV m \<in> set (map impact cs))"
    unfolding Math_max_def foldl_max_step by simp
  also have "\<dots> \<longleftrightarrow> list_all (not_above m) (map impact cs) \<and> ImpactV m \<in> set (map impact cs)"
    using mem by blast
  also have "\<dots> \<longleftrightarrow> is_max_impact cs m"
    unfolding is_max_impact_def ex al by blast
  finally show ?thesis .
qed


text \<open>
  C3: when the pull request classifies, with result \<open>p\<close>, and at least one commit
  classifies, and the impact of \<open>p\<close> is not the maximum impact of the classified commits,
  the final impact is \<open>p\<close> and a warning is present; when no commit classifies, or the
  impact of \<open>p\<close> is that maximum, the final impact is \<open>p\<close> and there is no warning.
\<close>

theorem getImpactFromGithub_conflict_policy:
  assumes "getConventionalImpact (PullRequest.title pr) (Some (PullRequest.body pr)) = Some p"
  shows
    "(classified_commits commits \<noteq> [] \<and>
      \<not> (\<exists>i. impact p = ImpactV i \<and> is_max_impact (classified_commits commits) i) \<longrightarrow>
        finalImpact (getImpactFromGithub pr commits) = Some p \<and>
        warning (getImpactFromGithub pr commits) \<noteq> None) \<and>
     (classified_commits commits = [] \<or>
      (\<exists>i. impact p = ImpactV i \<and> is_max_impact (classified_commits commits) i) \<longrightarrow>
        finalImpact (getImpactFromGithub pr commits) = Some p \<and>
        warning (getImpactFromGithub pr commits) = None)"
proof (cases "classified_commits commits = []")
  case True
  then show ?thesis using assms
    by (simp add: getImpactFromGithub_def classified_commits_def Let_def)
next
  case False
  let ?m = "Math_max (map impact (classified_commits commits))"
  have ne: "loose_ne (impact p) ?m
      \<longleftrightarrow> \<not> (\<exists>i. impact p = ImpactV i \<and> is_max_impact (classified_commits commits) i)"
  proof (cases "impact p")
    case (Inherited k)
    then show ?thesis by simp
  next
    case (ImpactV i)
    show ?thesis
    proof (cases ?m)
      case MaxNaN
      then have "\<not> is_max_impact (classified_commits commits) i"
        using Math_max_is_max [OF False, of i] by simp
      then show ?thesis using ImpactV MaxNaN by simp
    next
      case (MaxOf j)
      then have "is_max_impact (classified_commits commits) i \<longleftrightarrow> i = j"
        using Math_max_is_max [OF False, of i] by auto
      then show ?thesis using ImpactV MaxOf by simp
    qed
  qed
  show ?thesis
  proof (cases "loose_ne (impact p) ?m")
    case True
    then have "finalImpact (getImpactFromGithub pr commits) = Some p"
      "warning (getImpactFromGithub pr commits) \<noteq> None"
      using assms False
      by (simp_all add: getImpactFromGithub_def classified_commits_def [symmetric] Let_def)
    then show ?thesis using True False ne by blast
  next
    case nl: False
    then have "finalImpact (getImpactFromGithub pr commits) = Some p"
      "warning (getImpactFromGithub pr commits) = None"
      using assms False
      by (simp_all add: getImpactFromGithub_def classified_commits_def [symmetric] Let_def)
    then show ?thesis using nl False ne by blast
  qed
qed


theorem getImpactFromGithub_conflict_policy_witness:
  "getConventionalImpact ''chore: trivial'' (Some [])
     = Some \<lparr>type = ''chore'', impact = ImpactV NOIMPACT\<rparr> \<and>
   classified_commits [\<lparr>sha = ''b'', title = ''fix: y'', body = None\<rparr>]
     = [\<lparr>type = ''fix'', impact = ImpactV PATCH\<rparr>] \<and>
   \<not> is_max_impact [\<lparr>type = ''fix'', impact = ImpactV PATCH\<rparr>] NOIMPACT \<and>
   finalImpact (getImpactFromGithub
       \<lparr>PullRequest.title = ''chore: trivial'', body = [], labels = [], merged = False\<rparr>
       [\<lparr>sha = ''b'', title = ''fix: y'', body = None\<rparr>])
     = Some \<lparr>type = ''chore'', impact = ImpactV NOIMPACT\<rparr> \<and>
   warning (getImpactFromGithub
       \<lparr>PullRequest.title = ''chore: trivial'', body = [], labels = [], merged = False\<rparr>
       [\<lparr>sha = ''b'', title = ''fix: y'', body = None\<rparr>]) \<noteq> None \<and>
   getConventionalImpact ''fix: a'' (Some [])
     = Some \<lparr>type = ''fix'', impact = ImpactV PATCH\<rparr> \<and>
   is_max_impact [\<lparr>type = ''fix'', impact = ImpactV PATCH\<rparr>] PATCH \<and>
   finalImpact (getImpactFromGithub
       \<lparr>PullRequest.title = ''fix: a'', body = [], labels = [], merged = False\<rparr>
       [\<lparr>sha = ''b'', title = ''fix: y'', body = None\<rparr>])
     = Some \<lparr>type = ''fix'', impact = ImpactV PATCH\<rparr> \<and>
   warning (getImpactFromGithub
       \<lparr>PullRequest.title = ''fix: a'', body = [], labels = [], merged = False\<rparr>
       [\<lparr>sha = ''b'', title = ''fix: y'', body = None\<rparr>]) = None"
proof -
  let ?pr1 = "\<lparr>PullRequest.title = ''chore: trivial'', body = [], labels = [], merged = False\<rparr>"
  let ?pr2 = "\<lparr>PullRequest.title = ''fix: a'', body = [], labels = [], merged = False\<rparr>"
  let ?cs = "[\<lparr>sha = ''b'', title = ''fix: y'', body = None\<rparr>]"
  have p1: "getConventionalImpact (PullRequest.title ?pr1) (Some (PullRequest.body ?pr1))
      = Some \<lparr>type = ''chore'', impact = ImpactV NOIMPACT\<rparr>"
    by (simp add: title_eval getConventionalImpact_def)
  have p2: "getConventionalImpact (PullRequest.title ?pr2) (Some (PullRequest.body ?pr2))
      = Some \<lparr>type = ''fix'', impact = ImpactV PATCH\<rparr>"
    by (simp add: title_eval getConventionalImpact_def)
  have cs: "classified_commits ?cs = [\<lparr>type = ''fix'', impact = ImpactV PATCH\<rparr>]"
    by (simp add: title_eval getConventionalImpact_def classified_commits_def List.map_filter_def)
  have m1: "\<not> is_max_impact [\<lparr>type = ''fix'', impact = ImpactV PATCH\<rparr>] NOIMPACT"
    by (simp add: is_max_impact_def)
  have m2: "is_max_impact [\<lparr>type = ''fix'', impact = ImpactV PATCH\<rparr>] PATCH"
    by (simp add: is_max_impact_def)
  from getImpactFromGithub_conflict_policy [OF p1, of ?cs] cs m1
  have r1: "finalImpact (getImpactFromGithub ?pr1 ?cs)
      = Some \<lparr>type = ''chore'', impact = ImpactV NOIMPACT\<rparr> \<and>
      warning (getImpactFromGithub ?pr1 ?cs) \<noteq> None"
    by simp
  from getImpactFromGithub_conflict_policy [OF p2, of ?cs] cs m2
  have r2: "finalImpact (getImpactFromGithub ?pr2 ?cs)
      = Some \<lparr>type = ''fix'', impact = ImpactV PATCH\<rparr> \<and>
      warning (getImpactFromGithub ?pr2 ?cs) = None"
    by simp
  from p1 p2 cs m1 m2 r1 r2 show ?thesis by simp
qed



section \<open>Properties of the release-candidate resolution\<close>

lemma semver_re_valid:
  assumes "semver_re s = Some (ma, mi, pa, pre, build)"
  shows "(case pre of None \<Rightarrow> True | Some p \<Rightarrow> prerelease_re p) \<and>
         (case build of None \<Rightarrow> True | Some b \<Rightarrow> buildmetadata_re b)"
  using assms
  by (auto simp: semver_re_def split: prod.splits list.splits if_splits)

lemma parse_valid:
  assumes "parse s = Some v"
  shows "valid_version v"
proof -
  from assms obtain ma mi pa pre build where g: "semver_re s = Some (ma, mi, pa, pre, build)"
    by (auto simp: parse_def split: option.splits)
  note ok = semver_re_valid [OF g]
  have tp: "truthy pre \<or> pre = None"
    using ok prerelease_re_nonempty by (cases pre) auto
  have tb: "truthy build \<or> build = None"
    using ok buildmetadata_re_nonempty by (cases build) auto
  have "prerelease v = pre" "buildmetadata v = build"
    using assms g tp tb by (auto simp: parse_def)
  then show ?thesis using ok by (simp add: valid_version_def)
qed

lemma parse_reparse: "parse s = Some v \<Longrightarrow> safe_core v \<Longrightarrow> parse (toString v) = Some v"
  by (rule parse_toString_valid [OF parse_valid])

lemma rc_tag_reparse:
  "parse s = Some v \<Longrightarrow> safe_core v \<Longrightarrow> rc_tag base (toString v) m = rc_tag base s m"
  using parse_reparse [of s v] by (simp add: rc_tag_def)

lemma rc_tag_unparsed: "parse s = None \<Longrightarrow> rc_tag base s m = m"
  by (simp add: rc_tag_def)

lemma fold_rc_tag_reparse:
  "safe_tags tags \<Longrightarrow>
     fold (rc_tag base) (map toString (List.map_filter parse tags)) m = fold (rc_tag base) tags m"
proof (induction tags arbitrary: m)
  case Nil
  show ?case by (simp add: List.map_filter_simps)
next
  case (Cons t ts)
  from Cons.prems have rest: "safe_tags ts" by (simp add: safe_tags_def)
  show ?case
  proof (cases "parse t")
    case None
    then show ?thesis using Cons.IH [OF rest] by (simp add: List.map_filter_simps rc_tag_unparsed)
  next
    case (Some v)
    with Cons.prems have "safe_core v" by (simp add: safe_tags_def)
    then show ?thesis
      using Some Cons.IH [OF rest] by (simp add: List.map_filter_simps rc_tag_reparse)
  qed
qed

lemma nextRcIndex_reparse:
  "safe_tags tags \<Longrightarrow>
     nextRcIndex base (map toString (List.map_filter parse tags)) = nextRcIndex base tags"
  by (simp add: nextRcIndex_def fold_rc_tag_reparse)

lemma fetched_parsed:
  "getReleaseCandidatesSinceLatestRelease L G token b
     = List.map_filter parse (fetched_tag_names L G token b)"
  by (simp add: getReleaseCandidatesSinceLatestRelease_def fetched_tag_names_def Let_def
      List.map_filter_simps)

lemma bump_plain: "\<exists>b. bump v i None None = Inr b"
  by (cases i) (simp_all add: new_SemanticVersion_def)

lemma handle_unmerged_labelled:
  assumes "\<not> merged pr"
    and "\<exists>l\<in>set (labels pr). toLowerCase (name l) = ''release-candidate''"
    and "bump lastv imp None None = Inr b"
  shows "handle_release_candidates L G token pr imp lastv
    = Inr (Some (''rc'' @ show_number (nextRcIndex b
        (map toString (List.map_filter parse (fetched_tag_names L G token b))))))"
  using assms
  by (simp add: handle_release_candidates_def list_ex_iff fetched_parsed)

lemma show_number_digit: "show_number (Fin 2) = ''2''" "show_number (Fin 5) = ''5''"
  by (simp_all add: show_pos_def show_nat.simps digit_char_def)

text \<open>
  C6 as stated fails where a rendering does not parse back: the tags are parsed and
  rendered again before they are counted.  With the last release \<open>10 ^ 21\<close>\<open>.0.0\<close>, no
  impact and the tag \<open>1000000000000000000000.0.0-rc1\<close>, the tag is rendered as
  \<open>1e+21.0.0-rc1\<close>, which does not parse, and the result is \<open>rc0\<close>, whereas \<open>nextRcIndex\<close> of
  the tag names is \<open>2\<close>.
\<close>

theorem handle_release_candidates_rerendered:
  "parse ''1000000000000000000000.0.0-rc1''
     = Some (pre_release 1000000000000000000000 0 0 ''rc1'') \<and>
   toString (pre_release 1000000000000000000000 0 0 ''rc1'') = ''1e+21.0.0-rc1'' \<and>
   parse ''1e+21.0.0-rc1'' = None \<and>
   bump (release 1000000000000000000000 0 0) NOIMPACT None None
     = Inr (release 1000000000000000000000 0 0) \<and>
   fetched_tag_names (\<lambda>b. [''1000000000000000000000.0.0-rc1'']) (\<lambda>tok b. []) ''tok''
       (release 1000000000000000000000 0 0)
     = [''1000000000000000000000.0.0-rc1''] \<and>
   nextRcIndex (release 1000000000000000000000 0 0) [''1000000000000000000000.0.0-rc1'']
     = Fin 2 \<and>
   handle_release_candidates (\<lambda>b. [''1000000000000000000000.0.0-rc1'']) (\<lambda>tok b. []) ''tok''
       \<lparr>PullRequest.title = ''feat: a'', body = [],
        labels = [\<lparr>name = ''release-candidate''\<rparr>], merged = False\<rparr>
       NOIMPACT (release 1000000000000000000000 0 0)
     = Inr (Some ''rc0'')"
proof -
  let ?L = "\<lambda>b::SemanticVersion. [''1000000000000000000000.0.0-rc1'']"
  let ?G = "\<lambda>(tok::string) (b::SemanticVersion). [] :: string list"
  let ?pr = "\<lparr>PullRequest.title = ''feat: a'', body = [],
        labels = [\<lparr>name = ''release-candidate''\<rparr>], merged = False\<rparr>"
  have p: "parse ''1000000000000000000000.0.0-rc1''
      = Some (pre_release 1000000000000000000000 0 0 ''rc1'')"
    by (simp add: semver_eval to_double_nat_sextillion pre_release_def)
  have ts: "toString (pre_release 1000000000000000000000 0 0 ''rc1'') = ''1e+21.0.0-rc1''"
    by (simp add: toString_def pre_release_def show_number_sextillion show_number_zero
        del: show_number.simps)
  have np: "parse ''1e+21.0.0-rc1'' = None"
    by (simp add: semver_eval)
  have bmp: "bump (release 1000000000000000000000 0 0) NOIMPACT None None
      = Inr (release 1000000000000000000000 0 0)"
    by (simp add: new_SemanticVersion_def release_def)
  have f: "fetched_tag_names ?L ?G ''tok'' (release 1000000000000000000000 0 0)
      = [''1000000000000000000000.0.0-rc1'']"
    by (simp add: fetched_tag_names_def)
  have idx: "nextRcIndex (release 1000000000000000000000 0 0)
      [''1000000000000000000000.0.0-rc1''] = Fin 2"
    unfolding nextRcIndex_def
    by (simp add: rc_tag_def p)
      (simp add: pre_release_def release_def strict_equal_def char_class_defs all_digits_def
        Number_def dec_value_def digit_val_def to_double_nat_small isNaN_def to_double_small)
  have lower: "toLowerCase ''release-candidate'' = ''release-candidate''"
    by (simp add: toLowerCase_def to_lower_char_def)
  have idx0: "nextRcIndex (release 1000000000000000000000 0 0) [''1e+21.0.0-rc1''] = Fin 0"
    by (simp add: nextRcIndex_def rc_tag_def np to_double_small)
  have "handle_release_candidates ?L ?G ''tok'' ?pr NOIMPACT (release 1000000000000000000000 0 0)
      = Inr (Some (''rc'' @ show_number (nextRcIndex (release 1000000000000000000000 0 0)
          (map toString (List.map_filter parse
            (fetched_tag_names ?L ?G ''tok'' (release 1000000000000000000000 0 0)))))))"
  proof (rule handle_unmerged_labelled [OF _ _ bmp])
    show "\<not> merged ?pr" by simp
    show "\<exists>l\<in>set (labels ?pr). toLowerCase (name l) = ''release-candidate''"
      by (simp add: lower)
  qed
  also have "map toString (List.map_filter parse
      (fetched_tag_names ?L ?G ''tok'' (release 1000000000000000000000 0 0)))
      = [''1e+21.0.0-rc1'']"
    unfolding f by (simp add: List.map_filter_simps p ts)
  finally have res: "handle_release_candidates ?L ?G ''tok'' ?pr NOIMPACT
      (release 1000000000000000000000 0 0) = Inr (Some ''rc0'')"
    unfolding idx0 show_number_zero by simp
  from p ts np bmp f idx res show ?thesis by (intro conjI)
qed

text \<open>
  C6, amended: for a merged pull request the result is none, whatever its labels; for
  an unmerged one with a label that equals \<open>release-candidate\<close> up to case, it is \<open>rc\<close>
  followed by \<open>nextRcIndex\<close> of the bumped last release and the renderings of the fetched
  tag names that parse, which is \<open>nextRcIndex\<close> of the bumped last release and the
  fetched tag names themselves as long as every fetched name that parses has a major, a
  minor and a patch number below \<open>2 ^ 53\<close>; for an unmerged one without such a label
  it is none; and with the baseline \<open>1.2.0\<close>, no impact and the tags \<open>v1.2.0-rc.0\<close> and
  \<open>v1.2.0-rc.1\<close> it is \<open>rc2\<close>.
\<close>

theorem handle_release_candidates_resolution:
  "(merged pr \<longrightarrow> handle_release_candidates L G token pr imp lastv = Inr None) \<and>
   (\<not> merged pr \<and> (\<exists>l\<in>set (labels pr). toLowerCase (name l) = ''release-candidate'') \<longrightarrow>
      (\<exists>b. bump lastv imp None None = Inr b \<and>
        handle_release_candidates L G token pr imp lastv
          = Inr (Some (''rc'' @ show_number (nextRcIndex b
              (map toString (List.map_filter parse (fetched_tag_names L G token b)))))) \<and>
        (safe_tags (fetched_tag_names L G token b) \<longrightarrow>
          handle_release_candidates L G token pr imp lastv
            = Inr (Some (''rc'' @ show_number
                (nextRcIndex b (fetched_tag_names L G token b))))))) \<and>
   (\<not> merged pr \<and> \<not> (\<exists>l\<in>set (labels pr). toLowerCase (name l) = ''release-candidate'') \<longrightarrow>
      handle_release_candidates L G token pr imp lastv = Inr None) \<and>
   handle_release_candidates (\<lambda>b. [''v1.2.0-rc.0'', ''v1.2.0-rc.1'']) G token
       \<lparr>PullRequest.title = t, body = bd, labels = [\<lparr>name = ''release-candidate''\<rparr>],
        merged = False\<rparr> NOIMPACT (release 1 2 0)
     = Inr (Some ''rc2'')"
proof -
  have a: "merged pr \<longrightarrow> handle_release_candidates L G token pr imp lastv = Inr None"
    by (simp add: handle_release_candidates_def)
  have b: "\<not> merged pr \<and> (\<exists>l\<in>set (labels pr). toLowerCase (name l) = ''release-candidate'') \<longrightarrow>
      (\<exists>b. bump lastv imp None None = Inr b \<and>
        handle_release_candidates L G token pr imp lastv
          = Inr (Some (''rc'' @ show_number (nextRcIndex b
              (map toString (List.map_filter parse (fetched_tag_names L G token b)))))) \<and>
        (safe_tags (fetched_tag_names L G token b) \<longrightarrow>
          handle_release_candidates L G token pr imp lastv
            = Inr (Some (''rc'' @ show_number
                (nextRcIndex b (fetched_tag_names L G token b))))))"
  proof (intro impI)
    assume h: "\<not> merged pr \<and> (\<exists>l\<in>set (labels pr). toLowerCase (name l) = ''release-candidate'')"
    obtain b where bmp: "bump lastv imp None None = Inr b" using bump_plain by blast
    have r: "handle_release_candidates L G token pr imp lastv
          = Inr (Some (''rc'' @ show_number (nextRcIndex b
              (map toString (List.map_filter parse (fetched_tag_names L G token b))))))"
      using h by (intro handle_unmerged_labelled [OF _ _ bmp]) simp_all
    have "safe_tags (fetched_tag_names L G token b) \<longrightarrow>
          handle_release_candidates L G token pr imp lastv
            = Inr (Some (''rc'' @ show_number
                (nextRcIndex b (fetched_tag_names L G token b))))"
      unfolding r by (simp add: nextRcIndex_reparse)
    with bmp r show "\<exists>b. bump lastv imp None None = Inr b \<and>
        handle_release_candidates L G token pr imp lastv
          = Inr (Some (''rc'' @ show_number (nextRcIndex b
              (map toString (List.map_filter parse (fetched_tag_names L G token b)))))) \<and>
        (safe_tags (fetched_tag_names L G token b) \<longrightarrow>
          handle_release_candidates L G token pr imp lastv
            = Inr (Some (''rc'' @ show_number
                (nextRcIndex b (fetched_tag_names L G token b)))))"
      by blast
  qed
  have c: "\<not> merged pr \<and> \<not> (\<exists>l\<in>set (labels pr). toLowerCase (name l) = ''release-candidate'') \<longrightarrow>
      handle_release_candidates L G token pr imp lastv = Inr None"
    by (simp add: handle_release_candidates_def list_ex_iff)
  let ?pr = "\<lparr>PullRequest.title = t, body = bd, labels = [\<lparr>name = ''release-candidate''\<rparr>],
        merged = False\<rparr>"
  let ?L = "\<lambda>b::SemanticVersion. [''v1.2.0-rc.0'', ''v1.2.0-rc.1'']"
  have lower: "toLowerCase ''release-candidate'' = ''release-candidate''"
    by (simp add: toLowerCase_def to_lower_char_def)
  have bmp: "bump (release 1 2 0) NOIMPACT None None = Inr (release 1 2 0)"
    by (simp add: new_SemanticVersion_def release_def)
  have idx: "nextRcIndex (release 1 2 0) [''v1.2.0-rc.0'', ''v1.2.0-rc.1''] = Fin 2"
    by (simp add: rc_eval)
  have f: "fetched_tag_names ?L G token (release 1 2 0) = [''v1.2.0-rc.0'', ''v1.2.0-rc.1'']"
    by (simp add: fetched_tag_names_def)
  have st: "safe_tags [''v1.2.0-rc.0'', ''v1.2.0-rc.1'']"
    by (simp add: safe_tags_def safe_core_def semver_eval)
  have "handle_release_candidates ?L G token ?pr NOIMPACT (release 1 2 0)
      = Inr (Some (''rc'' @ show_number (nextRcIndex (release 1 2 0)
          (map toString (List.map_filter parse
            (fetched_tag_names ?L G token (release 1 2 0)))))))"
  proof (rule handle_unmerged_labelled [OF _ _ bmp])
    show "\<not> merged ?pr" by simp
    show "\<exists>l\<in>set (labels ?pr). toLowerCase (name l) = ''release-candidate''"
      by (simp add: lower)
  qed
  then have d: "handle_release_candidates ?L G token ?pr NOIMPACT (release 1 2 0)
      = Inr (Some ''rc2'')"
    unfolding f nextRcIndex_reparse [OF st] idx show_number_digit by simp
  from a b c d show ?thesis by blast
qed

theorem handle_release_candidates_resolution_witness:
  "merged \<lparr>PullRequest.title = ''feat: a'', body = [],
       labels = [\<lparr>name = ''release-candidate''\<rparr>], merged = True\<rparr> \<and>
   handle_release_candidates (\<lambda>b. []) (\<lambda>tok b. [''v1.3.0-rc.4'']) ''tok''
       \<lparr>PullRequest.title = ''feat: a'', body = [],
        labels = [\<lparr>name = ''release-candidate''\<rparr>], merged = True\<rparr> MINOR (release 1 2 0)
     = Inr None \<and>
   toLowerCase ''Release-Candidate'' = ''release-candidate'' \<and>
   safe_tags [''v1.3.0-rc.4''] \<and>
   handle_release_candidates (\<lambda>b. []) (\<lambda>tok b. [''v1.3.0-rc.4'']) ''tok''
       \<lparr>PullRequest.title = ''feat: a'', body = [],
        labels = [\<lparr>name = ''Release-Candidate''\<rparr>], merged = False\<rparr> MINOR (release 1 2 0)
     = Inr (Some ''rc5'') \<and>
   handle_release_candidates (\<lambda>b. []) (\<lambda>tok b. [''v1.3.0-rc.4'']) ''tok''
       \<lparr>PullRequest.title = ''feat: a'', body = [],
        labels = [\<lparr>name = ''bug''\<rparr>], merged = False\<rparr> MINOR (release 1 2 0)
     = Inr None"
proof -
  let ?L = "\<lambda>b::SemanticVersion. [] :: string list"
  let ?G = "\<lambda>(tok::string) (b::SemanticVersion). [''v1.3.0-rc.4'']"
  let ?m = "\<lparr>PullRequest.title = ''feat: a'', body = [],
       labels = [\<lparr>name = ''release-candidate''\<rparr>], merged = True\<rparr>"
  let ?u = "\<lparr>PullRequest.title = ''feat: a'', body = [],
       labels = [\<lparr>name = ''Release-Candidate''\<rparr>], merged = False\<rparr>"
  let ?n = "\<lparr>PullRequest.title = ''feat: a'', body = [],
       labels = [\<lparr>name = ''bug''\<rparr>], merged = False\<rparr>"
  have lower: "toLowerCase ''Release-Candidate'' = ''release-candidate''"
    by (simp add: toLowerCase_def to_lower_char_def Let_def char_of_eq_iff)
  have other: "toLowerCase ''bug'' \<noteq> ''release-candidate''"
    by (simp add: toLowerCase_def)
  have bmp: "bump (release 1 2 0) MINOR None None = Inr (release 1 3 0)"
    by (simp add: new_SemanticVersion_def release_def to_double_small)
  have f: "fetched_tag_names ?L ?G ''tok'' (release 1 3 0) = [''v1.3.0-rc.4'']"
    by (simp add: fetched_tag_names_def)
  have st: "safe_tags [''v1.3.0-rc.4'']"
    by (simp add: safe_tags_def safe_core_def semver_eval)
  have idx: "nextRcIndex (release 1 3 0) [''v1.3.0-rc.4''] = Fin 5"
    by (simp add: rc_eval)
  have r1: "handle_release_candidates ?L ?G ''tok'' ?m MINOR (release 1 2 0) = Inr None"
    using handle_release_candidates_resolution
      [where pr = ?m and L = ?L and G = ?G and token = "''tok''" and imp = MINOR
        and lastv = "release 1 2 0", THEN conjunct1]
    by simp
  have "\<exists>b. bump (release 1 2 0) MINOR None None = Inr b \<and>
      handle_release_candidates ?L ?G ''tok'' ?u MINOR (release 1 2 0)
        = Inr (Some (''rc'' @ show_number (nextRcIndex b
            (map toString (List.map_filter parse (fetched_tag_names ?L ?G ''tok'' b)))))) \<and>
      (safe_tags (fetched_tag_names ?L ?G ''tok'' b) \<longrightarrow>
        handle_release_candidates ?L ?G ''tok'' ?u MINOR (release 1 2 0)
          = Inr (Some (''rc'' @ show_number (nextRcIndex b (fetched_tag_names ?L ?G ''tok'' b)))))"
    using handle_release_candidates_resolution
      [where pr = ?u and L = ?L and G = ?G and token = "''tok''" and imp = MINOR
        and lastv = "release 1 2 0", THEN conjunct2, THEN conjunct1] lower
    by simp
  then have "safe_tags (fetched_tag_names ?L ?G ''tok'' (release 1 3 0)) \<longrightarrow>
      handle_release_candidates ?L ?G ''tok'' ?u MINOR (release 1 2 0)
        = Inr (Some (''rc'' @ show_number (nextRcIndex (release 1 3 0)
            (fetched_tag_names ?L ?G ''tok'' (release 1 3 0)))))"
    unfolding bmp by blast
  then have r2: "handle_release_candidates ?L ?G ''tok'' ?u MINOR (release 1 2 0)
        = Inr (Some ''rc5'')"
    unfolding f idx show_number_digit using st by simp
  have r3: "handle_release_candidates ?L ?G ''tok'' ?n MINOR (release 1 2 0) = Inr None"
    using handle_release_candidates_resolution
      [where pr = ?n and L = ?L and G = ?G and token = "''tok''" and imp = MINOR
        and lastv = "release 1 2 0", THEN conjunct2, THEN conjunct2, THEN conjunct1] other
    by simp
  from r1 lower st r2 r3 show ?thesis by simp
qed


section \<open>Properties of the body scan\<close>

lemma strip_prefix_Some_iff: "strip_prefix p s = Some r \<longleftrightarrow> s = p @ r"
  by (induction p s rule: strip_prefix.induct) auto

lemma strip_prefix_None_iff: "strip_prefix p s = None \<longleftrightarrow> (\<forall>r. s \<noteq> p @ r)"
  using strip_prefix_Some_iff [of p s] by (cases "strip_prefix p s") auto

lemma includes_str_iff: "includes_str s t \<longleftrightarrow> (\<exists>a b. s = a @ t @ b)"
proof (induction s)
  case Nil
  show ?case by (auto simp: strip_prefix_None_iff)
next
  case (Cons c cs)
  have "(\<exists>a b. c # cs = a @ t @ b) \<longleftrightarrow> (\<exists>b. c # cs = t @ b) \<or> (\<exists>a b. cs = a @ t @ b)"
  proof
    assume "\<exists>a b. c # cs = a @ t @ b"
    then obtain a b where ab: "c # cs = a @ t @ b" by blast
    show "(\<exists>b. c # cs = t @ b) \<or> (\<exists>a b. cs = a @ t @ b)"
    proof (cases a)
      case Nil
      with ab show ?thesis by auto
    next
      case (Cons x a')
      with ab have "cs = a' @ t @ b" by simp
      then show ?thesis by blast
    qed
  next
    assume "(\<exists>b. c # cs = t @ b) \<or> (\<exists>a b. cs = a @ t @ b)"
    then show "\<exists>a b. c # cs = a @ t @ b"
    proof
      assume "\<exists>b. c # cs = t @ b"
      then obtain b where "c # cs = [] @ t @ b" by auto
      then show ?thesis by blast
    next
      assume "\<exists>a b. cs = a @ t @ b"
      then obtain a b where "cs = a @ t @ b" by blast
      then have "c # cs = (c # a) @ t @ b" by simp
      then show ?thesis by blast
    qed
  qed
  then show ?case using Cons.IH by (simp add: strip_prefix_None_iff)
qed

lemma greedy_tail_Some: "greedy_tail s = Some r \<Longrightarrow> \<exists>a. s = a @ notes_tail @ r"
proof (induction s)
  case Nil
  then show ?case by (simp add: strip_prefix_Some_iff)
next
  case (Cons c cs)
  show ?case
  proof (cases "greedy_tail cs")
    case None
    with Cons.prems have "strip_prefix notes_tail (c # cs) = Some r"
      by (simp split: if_splits)
    then have "c # cs = [] @ notes_tail @ r" by (simp add: strip_prefix_Some_iff)
    then show ?thesis by blast
  next
    case (Some r')
    show ?thesis
    proof (cases "dot_or_nl c")
      case True
      with Some Cons.prems have "r' = r" by simp
      with Some Cons.IH obtain a where "cs = a @ notes_tail @ r" by blast
      then have "c # cs = (c # a) @ notes_tail @ r" by simp
      then show ?thesis by blast
    next
      case False
      with Cons.prems have "strip_prefix notes_tail (c # cs) = Some r" by simp
      then have "c # cs = [] @ notes_tail @ r" by (simp add: strip_prefix_Some_iff)
      then show ?thesis by blast
    qed
  qed
qed

lemma notes_tail_Cons: "notes_tail = CHR ''<'' # tl notes_tail"
  by (simp add: notes_tail_def)

lemma greedy_tail_last:
  assumes "list_all dot_or_nl mid"
    and "\<not> includes_str (tl notes_tail @ post) notes_tail"
  shows "greedy_tail (mid @ notes_tail @ post) = Some post"
  using assms(1)
proof (induction mid)
  case Nil
  have "greedy_tail (tl notes_tail @ post) = None"
  proof (cases "greedy_tail (tl notes_tail @ post)")
    case None
    then show ?thesis .
  next
    case (Some r)
    then obtain a where "tl notes_tail @ post = a @ notes_tail @ r"
      using greedy_tail_Some by blast
    then have "includes_str (tl notes_tail @ post) notes_tail"
      unfolding includes_str_iff by blast
    with assms(2) show ?thesis by simp
  qed
  moreover have "dot_or_nl CHR ''<''" by (simp add: dot_or_nl_def is_line_terminator_def)
  moreover have "strip_prefix notes_tail (notes_tail @ post) = Some post"
    by (simp add: strip_prefix_Some_iff)
  moreover have "notes_tail @ post = CHR ''<'' # (tl notes_tail @ post)"
    using notes_tail_Cons by (metis append_Cons)
  ultimately show ?case
    by (metis append_Nil greedy_tail.simps(2) option.simps(4))
next
  case (Cons c mid)
  then show ?case by simp
qed

lemma match_notes_block:
  assumes "list_all dot_or_nl mid"
    and "\<not> includes_str (tl notes_tail @ post) notes_tail"
  shows "match_notes (notes_head @ mid @ notes_tail @ post) = Some post"
proof -
  have "strip_prefix notes_head (notes_head @ mid @ notes_tail @ post)
      = Some (mid @ notes_tail @ post)"
    by (simp add: strip_prefix_Some_iff)
  then show ?thesis by (simp add: match_notes_def greedy_tail_last [OF assms])
qed

lemma take_append_short: "n \<le> length xs \<Longrightarrow> take n (xs @ ys) = take n xs"
  by simp

lemma prefix_shift:
  assumes "p @ h @ r = h @ r'" and "p \<noteq> []"
  shows "\<exists>q. p @ butlast h = h @ q"
proof (cases "h = []")
  case True
  then show ?thesis by simp
next
  case False
  have len: "length h \<le> length (p @ butlast h)" using assms(2) by (cases p) auto
  have h: "take (length h) (p @ h @ r) = h" using assms(1) by simp
  from False have "h = butlast h @ [last h]" by simp
  then have e: "p @ h @ r = (p @ butlast h) @ (last h # r)"
    by (metis append.assoc append_Cons append_Nil)
  have "take (length h) ((p @ butlast h) @ (last h # r)) = take (length h) (p @ butlast h)"
    by (rule take_append_short [OF len])
  then have "take (length h) (p @ h @ r) = take (length h) (p @ butlast h)"
    by (simp only: e)
  with h have "take (length h) (p @ butlast h) = h" by simp
  then have "p @ butlast h = h @ drop (length h) (p @ butlast h)"
    by (metis append_take_drop_id)
  then show ?thesis by blast
qed


lemma replace_notes_skip:
  assumes "\<not> includes_str (pre @ butlast notes_head) notes_head"
  shows "replace_notes (pre @ notes_head @ rest) = pre @ replace_notes (notes_head @ rest)"
  using assms
proof (induction pre)
  case Nil
  show ?case by simp
next
  case (Cons c cs)
  from Cons.prems have np: "strip_prefix notes_head ((c # cs) @ butlast notes_head) = None"
    and ni: "\<not> includes_str (cs @ butlast notes_head) notes_head"
    by simp_all
  have "strip_prefix notes_head ((c # cs) @ notes_head @ rest) = None"
  proof (cases "strip_prefix notes_head ((c # cs) @ notes_head @ rest)")
    case None
    then show ?thesis .
  next
    case (Some r')
    then have "(c # cs) @ notes_head @ rest = notes_head @ r'"
      by (simp add: strip_prefix_Some_iff)
    then obtain q where "(c # cs) @ butlast notes_head = notes_head @ q"
      using prefix_shift [of "c # cs" notes_head rest r'] by blast
    then have "strip_prefix notes_head ((c # cs) @ butlast notes_head) = Some q"
      by (simp add: strip_prefix_Some_iff)
    with np show ?thesis by simp
  qed
  then have "match_notes ((c # cs) @ notes_head @ rest) = None"
    by (simp add: match_notes_def)
  then have "replace_notes ((c # cs) @ notes_head @ rest)
      = c # replace_notes (cs @ notes_head @ rest)"
    by simp
  then show ?case using Cons.IH [OF ni] by simp
qed

lemma replace_notes_match: "match_notes s = Some r \<Longrightarrow> replace_notes s = r"
  by (cases s) simp_all

lemma replace_notes_block:
  assumes "\<not> includes_str (pre @ butlast notes_head) notes_head"
    and "list_all dot_or_nl mid"
    and "\<not> includes_str (tl notes_tail @ post) notes_tail"
  shows "replace_notes (pre @ notes_head @ mid @ notes_tail @ post) = pre @ post"
  using replace_notes_skip [OF assms(1), of "mid @ notes_tail @ post"]
    replace_notes_match [OF match_notes_block [OF assms(2,3)]]
  by simp

lemma includes_str_append:
  "includes_str pre t \<or> includes_str post t \<Longrightarrow> includes_str (pre @ post) t"
proof (erule disjE)
  assume "includes_str pre t"
  then obtain a b where "pre = a @ t @ b" unfolding includes_str_iff by blast
  then have "pre @ post = a @ t @ (b @ post)" by simp
  then show ?thesis unfolding includes_str_iff by blast
next
  assume "includes_str post t"
  then obtain a b where "post = a @ t @ b" unfolding includes_str_iff by blast
  then have "pre @ post = (pre @ a) @ t @ b" by simp
  then show ?thesis unfolding includes_str_iff by blast
qed

lemma after_first_Some: "after_first t s = Some r \<Longrightarrow> \<exists>a. s = a @ t @ r"
proof (induction s)
  case Nil
  then show ?case by (simp add: strip_prefix_Some_iff)
next
  case (Cons c cs)
  show ?case
  proof (cases "strip_prefix t (c # cs)")
    case None
    with Cons.prems have "after_first t cs = Some r" by simp
    with Cons.IH obtain a where "cs = a @ t @ r" by blast
    then have "c # cs = (c # a) @ t @ r" by simp
    then show ?thesis by blast
  next
    case (Some r')
    with Cons.prems have "r' = r" by simp
    with Some have "c # cs = [] @ t @ r" by (simp add: strip_prefix_Some_iff)
    then show ?thesis by blast
  qed
qed

lemma release_notes_block_shape:
  assumes "release_notes_block blk"
  shows "\<exists>mid. blk = notes_head @ mid @ notes_tail"
proof -
  from assms obtain r where r: "strip_prefix notes_head blk = Some r"
    and af: "after_first notes_tail r = Some []"
    by (auto simp: release_notes_block_def split: option.splits)
  from after_first_Some [OF af] obtain mid where "r = mid @ notes_tail" by auto
  with r show ?thesis by (auto simp: strip_prefix_Some_iff)
qed

lemmas body_eval = notes_head_def notes_tail_def dot_or_nl_def is_line_terminator_def
  match_notes_def ParseConventionalBody_def release_notes_block_def Let_def


text \<open>
  A carriage return inside the notes keeps the pattern from matching, so nothing is
  stripped.
\<close>

lemma ParseConventionalBody_carriage_return:
  "ParseConventionalBody
     (notes_head @ [CHR 0x0D, CHR 0x0A] @ ''BREAKING CHANGES'' @ [CHR 0x0A] @ notes_tail)
     = Some MAJOR"
  by (simp add: body_eval)

text \<open>
  With one block that ends at the next closing literal, and no closing literal after
  it, the block is what is removed: for a body made of a text \<open>pre\<close>, such a block without
  carriage return and a text \<open>post\<close>, where the head does not begin inside \<open>pre\<close>, the
  result is none when \<open>pre\<close> followed by \<open>post\<close> does not contain the token, and \<open>MAJOR\<close>
  when \<open>pre\<close> or \<open>post\<close> contains it.
\<close>

lemma ParseConventionalBody_single_block:
  assumes "release_notes_block blk"
    and "list_all dot_or_nl blk"
    and "\<not> includes_str (pre @ butlast notes_head) notes_head"
    and "\<not> includes_str (tl notes_tail @ post) notes_tail"
  shows
    "ParseConventionalBody bd
       = (if includes_str (replace_notes bd) ''BREAKING CHANGE'' then Some MAJOR else None) \<and>
     replace_notes (pre @ blk @ post) = pre @ post \<and>
     (\<not> includes_str (pre @ post) ''BREAKING CHANGE'' \<longrightarrow>
        ParseConventionalBody (pre @ blk @ post) = None) \<and>
     (includes_str pre ''BREAKING CHANGE'' \<or> includes_str post ''BREAKING CHANGE'' \<longrightarrow>
        ParseConventionalBody (pre @ blk @ post) = Some MAJOR)"
proof -
  from release_notes_block_shape [OF assms(1)]
  obtain mid where blk: "blk = notes_head @ mid @ notes_tail" by blast
  with assms(2) have mid: "list_all dot_or_nl mid" by simp
  have "replace_notes (pre @ blk @ post) = pre @ post"
    using replace_notes_block [OF assms(3) mid assms(4)] by (simp add: blk)
  then show ?thesis
    using includes_str_append [of pre "''BREAKING CHANGE''" post]
    by (auto simp: ParseConventionalBody_def Let_def)
qed

text \<open>
  The two bodies of the tests: the heading \<open>BREAKING CHANGES\<close> inside the block gives
  none, and a \<open>BREAKING CHANGE\<close> line before the block gives \<open>MAJOR\<close>.
\<close>

lemma ParseConventionalBody_single_block_examples:
  "release_notes_block
     (notes_head @ [CHR 0x0A] @ ''##### BREAKING CHANGES'' @ [CHR 0x0A, CHR 0x0A] @ notes_tail) \<and>
   ParseConventionalBody
     ((''This PR updates a dependency.'' @ [CHR 0x0A, CHR 0x0A])
       @ (notes_head @ [CHR 0x0A] @ ''##### BREAKING CHANGES'' @ [CHR 0x0A, CHR 0x0A] @ notes_tail)
       @ []) = None \<and>
   includes_str (''This PR updates a dependency.'' @ [CHR 0x0A]
       @ ''BREAKING CHANGE: changed API behavior.'' @ [CHR 0x0A]) ''BREAKING CHANGE'' \<and>
   ParseConventionalBody
     ((''This PR updates a dependency.'' @ [CHR 0x0A]
         @ ''BREAKING CHANGE: changed API behavior.'' @ [CHR 0x0A])
       @ (notes_head @ [CHR 0x0A] @ ''##### BREAKING CHANGES'' @ [CHR 0x0A, CHR 0x0A] @ notes_tail)
       @ []) = Some MAJOR"
proof -
  let ?blk = "notes_head @ [CHR 0x0A] @ ''##### BREAKING CHANGES'' @ [CHR 0x0A, CHR 0x0A] @ notes_tail"
  let ?pre1 = "''This PR updates a dependency.'' @ [CHR 0x0A, CHR 0x0A]"
  let ?pre2 = "''This PR updates a dependency.'' @ [CHR 0x0A]
         @ ''BREAKING CHANGE: changed API behavior.'' @ [CHR 0x0A]"
  have b: "release_notes_block ?blk" by (simp add: body_eval)
  have d: "list_all dot_or_nl ?blk" by (simp add: body_eval)
  have p1: "\<not> includes_str (?pre1 @ butlast notes_head) notes_head" by (simp add: body_eval)
  have p2: "\<not> includes_str (?pre2 @ butlast notes_head) notes_head" by (simp add: body_eval)
  have t: "\<not> includes_str (tl notes_tail @ []) notes_tail" by (simp add: body_eval)
  have n1: "\<not> includes_str (?pre1 @ []) ''BREAKING CHANGE''" by simp
  have i2: "includes_str ?pre2 ''BREAKING CHANGE''" by simp
  from ParseConventionalBody_single_block [OF b d p1 t] n1
  have r1: "ParseConventionalBody (?pre1 @ ?blk @ []) = None" by blast
  from ParseConventionalBody_single_block [OF b d p2 t] i2
  have r2: "ParseConventionalBody (?pre2 @ ?blk @ []) = Some MAJOR" by blast
  from b r1 i2 r2 show ?thesis by blast
qed

text \<open>
  C8 fails on the code: the star of the pattern is greedy, so that the match runs from
  the first head to the last closing literal of the body.  Here a block that ends at the
  next closing literal is followed by a line with \<open>BREAKING CHANGE\<close> and by a second
  block.  The line is outside both blocks, and it is what remains when the two blocks
  are taken out; the code removes the whole body and answers none, where the comment
  (\<open>strip renovatebot release notes\<close>) and the claim ask for \<open>MAJOR\<close>.
\<close>

theorem ParseConventionalBody_between_blocks:
  "release_notes_block (notes_head @ ''a'' @ notes_tail) \<and>
   release_notes_block (notes_head @ ''b'' @ notes_tail) \<and>
   includes_str ([CHR 0x0A] @ ''BREAKING CHANGE: x'' @ [CHR 0x0A]) ''BREAKING CHANGE'' \<and>
   replace_notes
     ((notes_head @ ''a'' @ notes_tail)
       @ ([CHR 0x0A] @ ''BREAKING CHANGE: x'' @ [CHR 0x0A])
       @ (notes_head @ ''b'' @ notes_tail))
     = [] \<and>
   ParseConventionalBody
     ((notes_head @ ''a'' @ notes_tail)
       @ ([CHR 0x0A] @ ''BREAKING CHANGE: x'' @ [CHR 0x0A])
       @ (notes_head @ ''b'' @ notes_tail))
     = None"
  by (simp add: body_eval)

end
